theory Spec2Isabelle
  imports Complex_Main "HOL-Library.Sublist"
begin

section \<open>JavaScript values, strings and errors\<close>

text \<open>
  The services are JavaScript. A raw finding is an object whose fields are filled by the
  tool adapters (\<^verbatim>\<open>scannerService.js\<close>). The three fields on which the analyzer calls a
  string method (\<^verbatim>\<open>vulnerability_type\<close>, \<^verbatim>\<open>title\<close>, \<^verbatim>\<open>description\<close>) are kept as dynamically
  typed values, because \<^verbatim>\<open>x?.toLowerCase()\<close> throws a TypeError on a value that is neither
  nullish nor a string. The other fields are modelled with the types the adapters give
  them: \<^verbatim>\<open>port\<close> is a number or absent (\<^verbatim>\<open>undefined\<close> and \<^verbatim>\<open>NaN\<close> are both \<open>None\<close>: each is
  falsy and equal to no number), \<^verbatim>\<open>service\<close>, \<^verbatim>\<open>version\<close>, \<^verbatim>\<open>cve_id\<close> are strings or absent.

  Strings are byte lists; \<^verbatim>\<open>toLowerCase\<close> is modelled on the ASCII letters.
  Scores are decimal literals in the source (\<^verbatim>\<open>9.8\<close>, \<^verbatim>\<open>1.0\<close>, \<^verbatim>\<open>0.2\<close>) combined by
  \<open>+\<close>, \<open>*\<close>, \<^verbatim>\<open>Math.min\<close> and \<^verbatim>\<open>Math.round\<close>; they are modelled as exact rationals.
  The source computes in binary floating point, where a product differs from the exact one
  by a relative error of about 1e-16. Of the products of a base score and a multiplier that
  can occur, only \<open>7.5 * 1.2 = 9.0\<close> and \<open>0.0 * m = 0.0\<close> meet a threshold, and both are the
  same in floating point; every other product is at least 0.01 away from each threshold, so
  the level is the same in both arithmetics. The rounded score can differ in its last digit
  where the exact product ends in 5 at the second decimal (\<open>6.1 * 1.5 = 9.15\<close> is rounded
  to 9.2 here and to 9.1 in floating point); the statements below fix a rounded score only
  where it is exact (0.0 and 10.0).
\<close>

datatype jsval = JUndefined | JNull | JString string | JNumber int | JBool bool | JObject

fun truthy :: "jsval \<Rightarrow> bool" where
  "truthy JUndefined = False"
| "truthy JNull = False"
| "truthy (JString s) = (s \<noteq> [])"
| "truthy (JNumber n) = (n \<noteq> 0)"
| "truthy (JBool b) = b"
| "truthy JObject = True"

text \<open>\<^verbatim>\<open>a || b\<close> on values.\<close>

definition js_or :: "jsval \<Rightarrow> jsval \<Rightarrow> jsval" where
  "js_or a b = (if truthy a then a else b)"

text \<open>Truthiness of an optional string (\<^verbatim>\<open>undefined\<close> and \<^verbatim>\<open>''\<close> are falsy) and of an
  optional number (\<^verbatim>\<open>undefined\<close>, \<^verbatim>\<open>NaN\<close> and \<^verbatim>\<open>0\<close> are falsy).\<close>

fun truthy_str :: "string option \<Rightarrow> bool" where
  "truthy_str None = False"
| "truthy_str (Some s) = (s \<noteq> [])"

fun truthy_num :: "int option \<Rightarrow> bool" where
  "truthy_num None = False"
| "truthy_num (Some n) = (n \<noteq> 0)"

text \<open>Structured data kept as it is (\<^verbatim>\<open>raw_output\<close>).\<close>

datatype json = JsonString string | JsonNumber int | JsonObject "(string \<times> json) list"

datatype exn = TypeError string | JsError string

fun message :: "exn \<Rightarrow> string" where
  "message (TypeError m) = m"
| "message (JsError m) = m"

text \<open>An ASCII capital letter (codes 65 to 90) becomes the small letter, 32 higher: bit 5
  of the code is set.\<close>

definition toLowerCase_char :: "char \<Rightarrow> char" where
  "toLowerCase_char c =
     (if 65 \<le> (of_char c :: nat) \<and> (of_char c :: nat) \<le> 90
      then (case c of Char b0 b1 b2 b3 b4 b5 b6 b7 \<Rightarrow> Char b0 b1 b2 b3 b4 True b6 b7)
      else c)"

definition toLowerCase :: "string \<Rightarrow> string" where
  "toLowerCase s = map toLowerCase_char s"

fun starts_with :: "string \<Rightarrow> string \<Rightarrow> bool" where
  "starts_with hay [] = True"
| "starts_with [] (n # ns) = False"
| "starts_with (h # hs) (n # ns) = (h = n \<and> starts_with hs ns)"

text \<open>\<^verbatim>\<open>hay.includes(needle)\<close>\<close>

fun str_includes :: "string \<Rightarrow> string \<Rightarrow> bool" where
  "str_includes [] needle = (needle = [])"
| "str_includes (h # hs) needle = (starts_with (h # hs) needle \<or> str_includes hs needle)"

text \<open>\<^verbatim>\<open>v?.toLowerCase().includes(needle)\<close>: \<^verbatim>\<open>undefined\<close> (falsy) on a nullish value,
  a TypeError on any other value that is not a string.\<close>

fun lower_includes :: "jsval \<Rightarrow> string \<Rightarrow> exn + bool" where
  "lower_includes JUndefined needle = Inr False"
| "lower_includes JNull needle = Inr False"
| "lower_includes (JString s) needle = Inr (str_includes (toLowerCase s) needle)"
| "lower_includes v needle = Inl (TypeError ''toLowerCase is not a function'')"

text \<open>\<^verbatim>\<open>try { body } catch (error) { handler }\<close> on results: a throw is \<open>Inl\<close>.\<close>

definition try_catch :: "exn + 'a \<Rightarrow> (exn \<Rightarrow> exn + 'a) \<Rightarrow> exn + 'a" where
  "try_catch body handler = (case body of Inr v \<Rightarrow> Inr v | Inl e \<Rightarrow> handler e)"

text \<open>\<^verbatim>\<open>a || b\<close> where either side may throw; \<open>b\<close> is evaluated only when \<open>a\<close> is falsy.\<close>

definition or_else :: "exn + bool \<Rightarrow> exn + bool \<Rightarrow> exn + bool" where
  "or_else a b = (case a of Inl e \<Rightarrow> Inl e | Inr x \<Rightarrow> (if x then Inr True else b))"

definition digit_char :: "nat \<Rightarrow> char" where
  "digit_char d = ''0123456789'' ! d"

fun string_of_nat :: "nat \<Rightarrow> string" where
  "string_of_nat n =
     (if n < 10 then [digit_char n]
      else string_of_nat (n div 10) @ [digit_char (n mod 10)])"

declare string_of_nat.simps [simp del]

definition string_of_int :: "int \<Rightarrow> string" where
  "string_of_int i = (if i < 0 then CHR ''-'' # string_of_nat (nat (- i)) else string_of_nat (nat i))"

text \<open>\<^verbatim>\<open>Math.round\<close>: the nearest integer, a half rounded up.\<close>

definition Math_round :: "rat \<Rightarrow> int" where
  "Math_round x = \<lfloor>x + 1 / 2\<rfloor>"

section \<open>Risk classification (the analyzer required as \<^verbatim>\<open>./aiAnalyzer\<close>)\<close>

record raw_finding =
  vulnerability_type :: jsval
  title :: jsval
  description :: jsval
  port :: "int option"
  service :: "string option"
  version :: "string option"
  protocol :: "string option"
  banner :: "string option"
  cve_id :: "string option"
  affected_component :: "string option"
  raw_output :: json

datatype risk_level = Info | Low | Medium | High | Critical

datatype pattern =
  ssh_open | http_server_outdated | ssl_weak_cipher | database_exposed
| sql_injection | xss_vulnerability | open_port

record profile =
  db_risk_level :: risk_level
  base_cvss :: rat
  db_description :: string
  fix_suggestions :: "string list"

fun vulnerabilityDatabase :: "pattern \<Rightarrow> profile" where
  "vulnerabilityDatabase ssh_open = \<lparr>
     db_risk_level = Medium, base_cvss = 53 / 10,
     db_description = ''SSH service is exposed and accessible from external networks'',
     fix_suggestions = [
       ''Restrict SSH access to specific IP ranges using firewall rules'',
       ''Implement fail2ban to prevent brute force attacks'',
       ''Use key-based authentication instead of passwords'',
       ''Change SSH port from default 22 to a non-standard port'',
       ''Disable root login via SSH'']\<rparr>"
| "vulnerabilityDatabase http_server_outdated = \<lparr>
     db_risk_level = High, base_cvss = 75 / 10,
     db_description = ''Web server is running an outdated version with known security vulnerabilities'',
     fix_suggestions = [
       ''Update web server to the latest stable version'',
       ''Apply all available security patches'',
       ''Review and harden server configuration'',
       ''Implement Web Application Firewall (WAF)'',
       ''Regular security updates and monitoring'']\<rparr>"
| "vulnerabilityDatabase ssl_weak_cipher = \<lparr>
     db_risk_level = Low, base_cvss = 37 / 10,
     db_description = ''Server supports weak SSL/TLS cipher suites that could be exploited'',
     fix_suggestions = [
       ''Disable weak cipher suites (RC4, DES, 3DES)'',
       ''Enable only strong encryption algorithms (AES)'',
       ''Use TLS 1.2 or higher versions only'',
       ''Implement Perfect Forward Secrecy (PFS)'',
       ''Regular SSL/TLS configuration audits'']\<rparr>"
| "vulnerabilityDatabase database_exposed = \<lparr>
     db_risk_level = High, base_cvss = 81 / 10,
     db_description = ''Database service is accessible from external networks'',
     fix_suggestions = [
       ''Restrict database access to application servers only'',
       ''Use VPN for remote database administration'',
       ''Implement database firewall rules'',
       ''Enable database encryption at rest and in transit'',
       ''Regular database security audits'']\<rparr>"
| "vulnerabilityDatabase sql_injection = \<lparr>
     db_risk_level = Critical, base_cvss = 98 / 10,
     db_description = ''Application is vulnerable to SQL injection attacks'',
     fix_suggestions = [
       ''Use parameterized queries and prepared statements'',
       ''Implement input validation and sanitization'',
       ''Apply principle of least privilege for database users'',
       ''Use stored procedures where appropriate'',
       ''Regular code security reviews and testing'']\<rparr>"
| "vulnerabilityDatabase xss_vulnerability = \<lparr>
     db_risk_level = Medium, base_cvss = 61 / 10,
     db_description = ''Application is vulnerable to Cross-Site Scripting (XSS) attacks'',
     fix_suggestions = [
       ''Implement proper input validation and output encoding'',
       ''Use Content Security Policy (CSP) headers'',
       ''Sanitize user input before displaying'',
       ''Use secure coding practices for web development'',
       ''Regular security testing and code reviews'']\<rparr>"
| "vulnerabilityDatabase open_port = \<lparr>
     db_risk_level = Info, base_cvss = 0,
     db_description = ''Network service detected on open port'',
     fix_suggestions = [
       ''Review if this service is necessary'',
       ''Implement access controls if service is required'',
       ''Monitor service for security updates'',
       ''Consider using VPN for sensitive services'']\<rparr>"

text \<open>The rules are tried in the source's order; the first that holds decides. A rule that
  calls \<^verbatim>\<open>toLowerCase\<close> on a non-string value throws.\<close>

definition identifyVulnerabilityPattern :: "raw_finding \<Rightarrow> exn + pattern" where
  "identifyVulnerabilityPattern scanResult =
     (case or_else (lower_includes (vulnerability_type scanResult) ''sql'')
                   (lower_includes (title scanResult) ''sql injection'') of
        Inl e \<Rightarrow> Inl e
      | Inr True \<Rightarrow> Inr sql_injection
      | Inr False \<Rightarrow>
     (case or_else (lower_includes (vulnerability_type scanResult) ''xss'')
                   (lower_includes (title scanResult) ''cross-site scripting'') of
        Inl e \<Rightarrow> Inl e
      | Inr True \<Rightarrow> Inr xss_vulnerability
      | Inr False \<Rightarrow>
     (if service scanResult = Some ''ssh'' \<or> port scanResult = Some 22 then Inr ssh_open
      else
     (case (if service scanResult = Some ''http'' \<or> service scanResult = Some ''https''
               \<or> port scanResult = Some 80 \<or> port scanResult = Some 443
            then or_else (lower_includes (description scanResult) ''outdated'')
                         (lower_includes (description scanResult) ''vulnerable version'')
            else Inr False) of
        Inl e \<Rightarrow> Inl e
      | Inr True \<Rightarrow> Inr http_server_outdated
      | Inr False \<Rightarrow>
     (case or_else (lower_includes (vulnerability_type scanResult) ''ssl'')
                   (lower_includes (vulnerability_type scanResult) ''tls'') of
        Inl e \<Rightarrow> Inl e
      | Inr True \<Rightarrow> Inr ssl_weak_cipher
      | Inr False \<Rightarrow>
     (if service scanResult = Some ''mysql'' \<or> service scanResult = Some ''postgresql''
         \<or> service scanResult = Some ''mssql''
         \<or> port scanResult = Some 3306 \<or> port scanResult = Some 5432
         \<or> port scanResult = Some 1433
      then Inr database_exposed
      else Inr open_port))))))"

record contextual_risk =
  cr_risk_level :: risk_level
  cr_cvss_score :: rat

definition riskMultiplier :: "raw_finding \<Rightarrow> rat" where
  "riskMultiplier scanResult =
     1
     + (if truthy_num (port scanResult) \<and> the (port scanResult) \<in> {22, 23, 3389}
        then 2 / 10 else 0)
     + (if truthy_str (service scanResult)
           \<and> the (service scanResult) \<in> {''mysql'', ''postgresql'', ''mssql''}
        then 3 / 10 else 0)
     + (if truthy_str (cve_id scanResult) then 4 / 10 else 0)"

text \<open>The score before rounding: \<^verbatim>\<open>Math.min(cvssScore * riskMultiplier, 10.0)\<close>.\<close>

definition cappedScore :: "raw_finding \<Rightarrow> profile \<Rightarrow> rat" where
  "cappedScore scanResult baseAnalysis =
     min (base_cvss baseAnalysis * riskMultiplier scanResult) 10"

definition calculateContextualRisk :: "raw_finding \<Rightarrow> profile \<Rightarrow> contextual_risk" where
  "calculateContextualRisk scanResult baseAnalysis =
     (let cvssScore = cappedScore scanResult baseAnalysis;
          riskLevel =
            (if cvssScore \<ge> 9 then Critical
             else if cvssScore \<ge> 7 then High
             else if cvssScore \<ge> 4 then Medium
             else if cvssScore \<ge> 1 / 10 then Low
             else Info)
      in \<lparr>cr_risk_level = riskLevel,
          cr_cvss_score = of_int (Math_round (cvssScore * 10)) / 10\<rparr>)"

definition generateTitle :: "raw_finding \<Rightarrow> pattern \<Rightarrow> jsval" where
  "generateTitle scanResult pat =
     (let baseTitle = js_or (title scanResult)
                        (js_or (vulnerability_type scanResult) (JString ''Security Finding''))
      in if pat = ssh_open
         then JString (''SSH Service Exposed on Port '' @
                string_of_int (if truthy_num (port scanResult) then the (port scanResult) else 22))
         else if pat = database_exposed
         then JString ''Database Service Accessible from External Networks''
         else baseTitle)"

definition generateDescription :: "raw_finding \<Rightarrow> profile \<Rightarrow> string" where
  "generateDescription scanResult baseAnalysis =
     db_description baseAnalysis
     @ (if truthy_str (service scanResult)
        then '' The '' @ the (service scanResult) @ '' service is running on port ''
             @ (if truthy_num (port scanResult) then string_of_int (the (port scanResult))
                else ''unknown'') @ ''.''
        else [])
     @ (if truthy_str (cve_id scanResult)
        then '' This finding is associated with '' @ the (cve_id scanResult) @ ''.''
        else [])"

text \<open>\<^verbatim>\<open>xs.join(sep)\<close>\<close>

fun join :: "string \<Rightarrow> string list \<Rightarrow> string" where
  "join sep [] = []"
| "join sep [x] = x"
| "join sep (x # y # ys) = x @ sep @ join sep (y # ys)"

text \<open>The separator of the suggestion list: a line feed, a bullet (three bytes in UTF-8)
  and a space.\<close>

definition bullet_sep :: string where
  "bullet_sep = [CHR 0x0A, CHR 0xE2, CHR 0x80, CHR 0xA2, CHR 0x20]"

definition generateFixSuggestion :: "raw_finding \<Rightarrow> profile \<Rightarrow> string" where
  "generateFixSuggestion scanResult baseAnalysis =
     join bullet_sep
       (fix_suggestions baseAnalysis
        @ (if truthy_num (port scanResult)
           then [''Consider changing the service from default port ''
                 @ string_of_int (the (port scanResult)) @ '' if possible'']
           else []))"

record technical_details =
  td_port :: "int option"
  td_service :: "string option"
  td_protocol :: string
  td_banner :: "string option"
  td_version :: "string option"
  td_raw_output :: json

definition extractTechnicalDetails :: "raw_finding \<Rightarrow> technical_details" where
  "extractTechnicalDetails scanResult =
     \<lparr>td_port = port scanResult,
      td_service = service scanResult,
      td_protocol = (if truthy_str (protocol scanResult) then the (protocol scanResult) else ''tcp''),
      td_banner = banner scanResult,
      td_version = version scanResult,
      td_raw_output = raw_output scanResult\<rparr>"

fun assessImpact :: "risk_level \<Rightarrow> string" where
  "assessImpact Critical = ''Complete system compromise, data breach, or service disruption highly likely''"
| "assessImpact High = ''Significant security risk with potential for unauthorized access or data exposure''"
| "assessImpact Medium = ''Moderate security risk that could lead to limited unauthorized access''"
| "assessImpact Low = ''Minor security concern with limited potential impact''"
| "assessImpact Info = ''Informational finding for security awareness''"

fun calculateRemediationPriority :: "contextual_risk \<Rightarrow> string" where
  "calculateRemediationPriority contextualRisk =
     (case cr_risk_level contextualRisk of
        Critical \<Rightarrow> ''Immediate (within 24 hours)''
      | High \<Rightarrow> ''High (within 1 week)''
      | Medium \<Rightarrow> ''Medium (within 1 month)''
      | Low \<Rightarrow> ''Low (within 3 months)''
      | Info \<Rightarrow> ''Informational (as time permits)'')"

fun getReferences :: "pattern \<Rightarrow> string list" where
  "getReferences ssh_open =
     [''https://www.ssh.com/academy/ssh/security'',
      ''https://nvd.nist.gov/vuln/search/results?form_type=Basic&results_type=overview&query=SSH'']"
| "getReferences sql_injection =
     [''https://owasp.org/www-community/attacks/SQL_Injection'',
      ''https://cwe.mitre.org/data/definitions/89.html'']"
| "getReferences xss_vulnerability =
     [''https://owasp.org/www-community/attacks/xss/'',
      ''https://cwe.mitre.org/data/definitions/79.html'']"
| "getReferences pat = []"

definition calculateConfidenceScore :: "raw_finding \<Rightarrow> rat" where
  "calculateConfidenceScore scanResult =
     min (7 / 10
          + (if truthy_str (cve_id scanResult) then 2 / 10 else 0)
          + (if truthy_str (service scanResult) then 1 / 10 else 0)
          + (if truthy_str (version scanResult) then 1 / 10 else 0)) 1"

text \<open>\<^verbatim>\<open>technical_details\<close> holds the extracted details in a normal analysis and the whole
  raw finding in the fallback analysis.\<close>

datatype details = Extracted technical_details | Whole raw_finding

record analysis =
  an_risk_level :: risk_level
  an_cvss_score :: rat
  an_title :: jsval
  an_description :: string
  an_fix_suggestion :: string
  an_technical_details :: details
  an_impact_assessment :: string
  an_remediation_priority :: string
  an_references :: "string list"
  an_confidence_score :: rat

definition performAnalysis :: "raw_finding \<Rightarrow> exn + analysis" where
  "performAnalysis scanResult =
     (case identifyVulnerabilityPattern scanResult of
        Inl e \<Rightarrow> Inl e
      | Inr pat \<Rightarrow>
          (let baseAnalysis = vulnerabilityDatabase pat;
               contextualRisk = calculateContextualRisk scanResult baseAnalysis
           in Inr \<lparr>an_risk_level = cr_risk_level contextualRisk,
                   an_cvss_score = cr_cvss_score contextualRisk,
                   an_title = generateTitle scanResult pat,
                   an_description = generateDescription scanResult baseAnalysis,
                   an_fix_suggestion = generateFixSuggestion scanResult baseAnalysis,
                   an_technical_details = Extracted (extractTechnicalDetails scanResult),
                   an_impact_assessment = assessImpact (cr_risk_level contextualRisk),
                   an_remediation_priority = calculateRemediationPriority contextualRisk,
                   an_references = getReferences pat,
                   an_confidence_score = calculateConfidenceScore scanResult\<rparr>))"

definition getFallbackAnalysis :: "raw_finding \<Rightarrow> analysis" where
  "getFallbackAnalysis scanResult =
     \<lparr>an_risk_level = Info,
      an_cvss_score = 0,
      an_title = js_or (title scanResult) (JString ''Security Finding''),
      an_description = ''A security finding was detected but could not be fully analyzed.'',
      an_fix_suggestion = ''Review this finding manually and apply appropriate security measures.'',
      an_technical_details = Whole scanResult,
      an_impact_assessment = ''Impact assessment unavailable'',
      an_remediation_priority = ''Manual review required'',
      an_references = [],
      an_confidence_score = 3 / 10\<rparr>"

text \<open>\<^verbatim>\<open>try { return performAnalysis(r) } catch (error) { return getFallbackAnalysis(r) }\<close>.
  The result is a sum, so that a throw of the function itself would be a value \<open>Inl\<close>; the
  simulated processing delay inside the \<^verbatim>\<open>try\<close> block has no effect on the result.\<close>

definition analyzeVulnerability :: "raw_finding \<Rightarrow> exn + analysis" where
  "analyzeVulnerability scanResult =
     try_catch (performAnalysis scanResult) (\<lambda>error. Inr (getFallbackAnalysis scanResult))"

section \<open>Tool adapters (\<^verbatim>\<open>scannerService.js\<close>)\<close>

text \<open>
  An adapter spawns an external process and reads what it wrote. How the process ended and
  what the file system answered are inputs of the model (\<open>tool_io\<close>); the command line
  built from the target and the options only reaches that process. The walk over the parsed
  XML in \<^verbatim>\<open>parseNmapXML\<close> and the line scanner of \<^verbatim>\<open>parseNiktoOutput\<close> are parameters of
  the environment as well (\<open>nmap_xml_findings\<close>, \<open>None\<close> when the parser throws, and
  \<open>nikto_line_findings\<close>).
\<close>

datatype tool = Nmap | Nikto | Sqlmap | Zap

text \<open>The end of a spawned process: the \<^verbatim>\<open>close\<close> event with its exit code (\<^verbatim>\<open>null\<close> is
  \<open>None\<close>), standard output and standard error; the timer firing first; the \<^verbatim>\<open>error\<close>
  event of a process that could not be spawned.\<close>

datatype proc_result = Closed "int option" string string | TimedOut | SpawnError exn

definition executeCommand :: "nat \<Rightarrow> proc_result \<Rightarrow> exn + string" where
  "executeCommand timeout p =
     (case p of
        Closed code output errorOutput \<Rightarrow>
          if code = Some 0 then Inr output
          else Inl (JsError (''Command failed with code ''
                 @ (case code of None \<Rightarrow> ''null'' | Some c \<Rightarrow> string_of_int c)
                 @ '': '' @ errorOutput))
      | TimedOut \<Rightarrow> Inl (JsError (''Command timeout after '' @ string_of_nat timeout @ ''ms''))
      | SpawnError e \<Rightarrow> Inl e)"

record tool_io =
  proc :: proc_result
  report :: "exn + string"
  mkdir :: "exn + unit"

definition no_finding :: raw_finding where
  "no_finding =
     \<lparr>vulnerability_type = JUndefined, title = JUndefined, description = JUndefined,
      port = None, service = None, version = None, protocol = None, banner = None,
      cve_id = None, affected_component = None, raw_output = JsonObject []\<rparr>"

definition getSimulatedNmapResults :: "string \<Rightarrow> raw_finding list" where
  "getSimulatedNmapResults target =
     [no_finding\<lparr>
        vulnerability_type := JString ''Open Port'',
        title := JString ''SSH Service on Port 22'',
        port := Some 22,
        service := Some ''ssh'',
        version := Some ''OpenSSH 8.2p1'',
        protocol := Some ''tcp'',
        affected_component := Some (target @ '':22''),
        raw_output := JsonObject
          [(''host'', JsonString target), (''port'', JsonNumber 22),
           (''protocol'', JsonString ''tcp''), (''state'', JsonString ''open''),
           (''service'', JsonObject [(''name'', JsonString ''ssh''),
                                      (''version'', JsonString ''OpenSSH 8.2p1'')])]\<rparr>,
      no_finding\<lparr>
        vulnerability_type := JString ''Open Port'',
        title := JString ''HTTP Service on Port 80'',
        port := Some 80,
        service := Some ''http'',
        version := Some ''Apache 2.4.29'',
        protocol := Some ''tcp'',
        affected_component := Some (target @ '':80''),
        raw_output := JsonObject
          [(''host'', JsonString target), (''port'', JsonNumber 80),
           (''protocol'', JsonString ''tcp''), (''state'', JsonString ''open''),
           (''service'', JsonObject [(''name'', JsonString ''http''),
                                      (''version'', JsonString ''Apache 2.4.29'')])]\<rparr>]"

definition getSimulatedNiktoResults :: "string \<Rightarrow> raw_finding list" where
  "getSimulatedNiktoResults target =
     [no_finding\<lparr>
        vulnerability_type := JString ''Web Vulnerability'',
        title := JString ''Server Information Disclosure'',
        description := JString ''Server version information is disclosed in HTTP headers'',
        port := Some 80,
        service := Some ''http'',
        raw_output := JsonObject [(''nikto_line'', JsonString ''+ Server: Apache/2.4.29 (Ubuntu)'')]\<rparr>,
      no_finding\<lparr>
        vulnerability_type := JString ''Web Vulnerability'',
        title := JString ''Directory Listing Enabled'',
        description := JString ''Directory listing is enabled on /uploads/ directory'',
        port := Some 80,
        service := Some ''http'',
        raw_output := JsonObject [(''nikto_line'', JsonString ''+ /uploads/: Directory indexing found.'')]\<rparr>]"

definition getSimulatedSqlmapResults :: "string \<Rightarrow> raw_finding list" where
  "getSimulatedSqlmapResults target =
     [no_finding\<lparr>
        vulnerability_type := JString ''SQL Injection'',
        title := JString ''SQL Injection in Login Form'',
        description := JString ''Time-based blind SQL injection vulnerability detected in login parameter'',
        cve_id := Some ''CVE-2021-44228'',
        raw_output := JsonObject
          [(''sqlmap_output'',
            JsonString (''Parameter: username (POST)'' @ [CHR 0x0A] @ ''Type: time-based blind''))]\<rparr>]"

definition getSimulatedZapResults :: "string \<Rightarrow> raw_finding list" where
  "getSimulatedZapResults target =
     [no_finding\<lparr>
        vulnerability_type := JString ''XSS'',
        title := JString ''Cross-Site Scripting (XSS) Vulnerability'',
        description := JString ''Reflected XSS vulnerability found in search parameter'',
        port := Some 80,
        service := Some ''http'',
        raw_output := JsonObject [(''zap_finding'', JsonString ''XSS detected in search parameter'')]\<rparr>]"

text \<open>The parsers catch their own errors and answer \<^verbatim>\<open>[]\<close>. In \<^verbatim>\<open>parseNiktoOutput\<close>
  reading the report is inside that \<^verbatim>\<open>try\<close> block.\<close>

definition parseNmapXML :: "(string \<Rightarrow> raw_finding list option) \<Rightarrow> string \<Rightarrow> raw_finding list" where
  "parseNmapXML nmap_xml_findings xmlContent =
     (case nmap_xml_findings xmlContent of None \<Rightarrow> [] | Some findings \<Rightarrow> findings)"

definition parseNiktoOutput :: "(string \<Rightarrow> raw_finding list) \<Rightarrow> exn + string \<Rightarrow> raw_finding list" where
  "parseNiktoOutput nikto_line_findings outputFile =
     (case outputFile of Inl e \<Rightarrow> [] | Inr content \<Rightarrow> nikto_line_findings content)"

definition parseSqlmapOutput :: "string \<Rightarrow> raw_finding list" where
  "parseSqlmapOutput output =
     (if str_includes output ''sqlmap identified the following injection point''
      then [no_finding\<lparr>
              vulnerability_type := JString ''SQL Injection'',
              title := JString ''SQL Injection Vulnerability Detected'',
              description := JString ''SQLMap detected potential SQL injection vulnerabilities'',
              raw_output := JsonObject [(''sqlmap_output'', JsonString output)]\<rparr>]
      else [])"

record parsers =
  nmap_xml_findings :: "string \<Rightarrow> raw_finding list option"
  nikto_line_findings :: "string \<Rightarrow> raw_finding list"

text \<open>Each adapter is one \<^verbatim>\<open>try\<close> block whose \<^verbatim>\<open>catch\<close> returns the simulated results.
  Removing the temporary files afterwards swallows its own errors.\<close>

definition runNmapScan :: "parsers \<Rightarrow> tool_io \<Rightarrow> string \<Rightarrow> exn + raw_finding list" where
  "runNmapScan ps t target =
     try_catch
       (case executeCommand 300000 (proc t) of
          Inl e \<Rightarrow> Inl e
        | Inr output \<Rightarrow>
            (case report t of
               Inl e \<Rightarrow> Inl e
             | Inr xmlContent \<Rightarrow> Inr (parseNmapXML (nmap_xml_findings ps) xmlContent)))
       (\<lambda>error. Inr (getSimulatedNmapResults target))"

definition runNiktoScan :: "parsers \<Rightarrow> tool_io \<Rightarrow> string \<Rightarrow> exn + raw_finding list" where
  "runNiktoScan ps t target =
     try_catch
       (case executeCommand 600000 (proc t) of
          Inl e \<Rightarrow> Inl e
        | Inr output \<Rightarrow> Inr (parseNiktoOutput (nikto_line_findings ps) (report t)))
       (\<lambda>error. Inr (getSimulatedNiktoResults target))"

definition runSqlmapScan :: "parsers \<Rightarrow> tool_io \<Rightarrow> string \<Rightarrow> exn + raw_finding list" where
  "runSqlmapScan ps t target =
     try_catch
       (case mkdir t of
          Inl e \<Rightarrow> Inl e
        | Inr u \<Rightarrow>
            (case executeCommand 900000 (proc t) of
               Inl e \<Rightarrow> Inl e
             | Inr output \<Rightarrow> Inr (parseSqlmapOutput output)))
       (\<lambda>error. Inr (getSimulatedSqlmapResults target))"

definition runZapScan :: "parsers \<Rightarrow> tool_io \<Rightarrow> string \<Rightarrow> exn + raw_finding list" where
  "runZapScan ps t target =
     try_catch (Inr (getSimulatedZapResults target))
       (\<lambda>error. Inr (getSimulatedZapResults target))"

fun run_adapter :: "tool \<Rightarrow> parsers \<Rightarrow> tool_io \<Rightarrow> string \<Rightarrow> exn + raw_finding list" where
  "run_adapter Nmap = runNmapScan"
| "run_adapter Nikto = runNiktoScan"
| "run_adapter Sqlmap = runSqlmapScan"
| "run_adapter Zap = runZapScan"

text \<open>The simulated result set of each tool.\<close>

fun getSimulatedResults :: "tool \<Rightarrow> string \<Rightarrow> raw_finding list" where
  "getSimulatedResults Nmap = getSimulatedNmapResults"
| "getSimulatedResults Nikto = getSimulatedNiktoResults"
| "getSimulatedResults Sqlmap = getSimulatedSqlmapResults"
| "getSimulatedResults Zap = getSimulatedZapResults"

section \<open>The store, the job and the environment (\<^verbatim>\<open>queueService.js\<close>)\<close>

text \<open>
  The engine works on two tables of the relational store (\<^verbatim>\<open>scans\<close>, \<^verbatim>\<open>scan_results\<close>) and on
  the progress field of the queue's job. The world holds the columns the engine writes.
  Every operation that leaves the process (a query, a progress update, an adapter run)
  takes one tick of the clock; the environment says, for the tick at which an operation
  starts, whether a query or a progress update fails (\<open>io_failure\<close>, with the message of
  the error thrown; a statement the store rejects is such a failure) and how a tool run
  ends (\<open>tool_run\<close>). The log \<open>events\<close> records, in order, every write that took effect and
  every adapter invocation; nothing reads it.
\<close>

type_synonym scan_id = nat

datatype scan_status = St_pending | St_running | St_complete | St_error | St_cancelled

record scan_row =
  status :: scan_status
  progress :: nat
  error_message :: "string option"
  started_at :: "nat option"
  completed_at :: "nat option"

record result_row =
  row_id :: nat
  row_scan_id :: scan_id
  row_vulnerability_type :: jsval
  row_risk_level :: risk_level
  row_title :: jsval
  row_description :: string
  row_fix_suggestion :: string
  row_cvss_score :: rat
  row_cve_id :: "string option"
  row_affected_component :: "string option"
  row_port :: "int option"
  row_service :: "string option"
  row_raw_output :: json
  row_ai_analysis :: analysis

datatype event =
  StatusWritten scan_id scan_status
| ProgressReported nat
| ResultStored result_row
| AdapterInvoked tool

record world =
  scans :: "scan_id \<rightharpoonup> scan_row"
  scan_results :: "result_row list"
  next_result_id :: nat
  job_progress :: nat
  clock :: nat
  events :: "event list"

record env =
  io_failure :: "nat \<Rightarrow> string option"
  tool_run :: "nat \<Rightarrow> tool_io"
  parsers :: parsers

type_synonym 'a action = "world \<Rightarrow> (exn + 'a) \<times> world"

definition tick :: "world \<Rightarrow> world" where
  "tick w = w\<lparr>clock := clock w + 1\<rparr>"

text \<open>\<^verbatim>\<open>const x = await m; ...\<close>: the rest runs on the value unless \<open>m\<close> threw.\<close>

definition await :: "'a action \<Rightarrow> ('a \<Rightarrow> 'b action) \<Rightarrow> 'b action" where
  "await m f w = (case m w of (Inl e, w') \<Rightarrow> (Inl e, w') | (Inr x, w') \<Rightarrow> f x w')"

definition return :: "'a \<Rightarrow> 'a action" where
  "return x w = (Inr x, w)"

definition throw :: "exn \<Rightarrow> 'a action" where
  "throw e w = (Inl e, w)"

text \<open>\<^verbatim>\<open>await query(statement, params)\<close>: the statement takes effect unless the store fails.\<close>

definition query :: "env \<Rightarrow> (world \<Rightarrow> 'a \<times> world) \<Rightarrow> 'a action" where
  "query env statement w =
     (case io_failure env (clock w) of
        Some m \<Rightarrow> (Inl (JsError m), tick w)
      | None \<Rightarrow> (case statement w of (x, w') \<Rightarrow> (Inr x, tick w')))"

text \<open>\<^verbatim>\<open>UPDATE scans SET ... WHERE id = scanId\<close>: no row, no change. Each of the engine's three
  updates sets the status, so each is logged as a status write.\<close>

definition update_scan :: "scan_id \<Rightarrow> (scan_row \<Rightarrow> scan_row) \<Rightarrow> world \<Rightarrow> unit \<times> world" where
  "update_scan scanId f w =
     (case scans w scanId of
        None \<Rightarrow> ((), w)
      | Some row \<Rightarrow>
          ((), w\<lparr>scans := (scans w)(scanId \<mapsto> f row),
                 events := events w @ [StatusWritten scanId (status (f row))]\<rparr>))"

text \<open>\<^verbatim>\<open>UPDATE scans SET status = 'running', started_at = CURRENT_TIMESTAMP WHERE id = $2\<close>\<close>

definition set_running :: "scan_id \<Rightarrow> world \<Rightarrow> unit \<times> world" where
  "set_running scanId w =
     update_scan scanId (\<lambda>row. row\<lparr>status := St_running, started_at := Some (clock w)\<rparr>) w"

text \<open>\<^verbatim>\<open>UPDATE scans SET status = 'complete', completed_at = CURRENT_TIMESTAMP, progress = 100
  WHERE id = $2\<close>\<close>

definition set_complete :: "scan_id \<Rightarrow> world \<Rightarrow> unit \<times> world" where
  "set_complete scanId w =
     update_scan scanId
       (\<lambda>row. row\<lparr>status := St_complete, completed_at := Some (clock w), progress := 100\<rparr>) w"

text \<open>\<^verbatim>\<open>UPDATE scans SET status = 'error', error_message = $2, completed_at = CURRENT_TIMESTAMP
  WHERE id = $3\<close>\<close>

definition set_error :: "scan_id \<Rightarrow> string \<Rightarrow> world \<Rightarrow> unit \<times> world" where
  "set_error scanId msg w =
     update_scan scanId
       (\<lambda>row. row\<lparr>status := St_error, error_message := Some msg,
                   completed_at := Some (clock w)\<rparr>) w"

text \<open>\<^verbatim>\<open>INSERT INTO scan_results (...) VALUES (...) RETURNING id\<close>\<close>

definition result_row_of :: "nat \<Rightarrow> scan_id \<Rightarrow> raw_finding \<Rightarrow> analysis \<Rightarrow> result_row" where
  "result_row_of rid scanId result aiAnalysis =
     \<lparr>row_id = rid,
      row_scan_id = scanId,
      row_vulnerability_type = vulnerability_type result,
      row_risk_level = an_risk_level aiAnalysis,
      row_title = js_or (title result) (an_title aiAnalysis),
      row_description = an_description aiAnalysis,
      row_fix_suggestion = an_fix_suggestion aiAnalysis,
      row_cvss_score = an_cvss_score aiAnalysis,
      row_cve_id = cve_id result,
      row_affected_component = affected_component result,
      row_port = port result,
      row_service = service result,
      row_raw_output = raw_output result,
      row_ai_analysis = aiAnalysis\<rparr>"

definition insert_result :: "scan_id \<Rightarrow> raw_finding \<Rightarrow> analysis \<Rightarrow> world \<Rightarrow> nat \<times> world" where
  "insert_result scanId result aiAnalysis w =
     (let row = result_row_of (next_result_id w) scanId result aiAnalysis
      in (row_id row,
          w\<lparr>scan_results := scan_results w @ [row],
            next_result_id := Suc (next_result_id w),
            events := events w @ [ResultStored row]\<rparr>))"

text \<open>\<^verbatim>\<open>await job.updateProgress(n)\<close>\<close>

definition updateProgress :: "env \<Rightarrow> nat \<Rightarrow> unit action" where
  "updateProgress env n w =
     (case io_failure env (clock w) of
        Some m \<Rightarrow> (Inl (JsError m), tick w)
      | None \<Rightarrow> (Inr (), tick (w\<lparr>job_progress := n, events := events w @ [ProgressReported n]\<rparr>)))"

text \<open>\<^verbatim>\<open>await scanners.runXScan(target, options)\<close>\<close>

definition invoke :: "env \<Rightarrow> tool \<Rightarrow> string \<Rightarrow> raw_finding list action" where
  "invoke env t target w =
     (run_adapter t (parsers env) (tool_run env (clock w)) target,
      tick (w\<lparr>events := events w @ [AdapterInvoked t]\<rparr>))"

section \<open>The orchestrator: \<^verbatim>\<open>executeScan\<close> and the worker's handler\<close>

record processed =
  pr_id :: nat
  pr_result :: raw_finding
  pr_ai_analysis :: analysis

text \<open>The loop over the raw findings: analyze one, store it, go on to the next.\<close>

fun processResults ::
  "env \<Rightarrow> scan_id \<Rightarrow> raw_finding list \<Rightarrow> processed list \<Rightarrow> processed list action" where
  "processResults env scanId [] processedResults = return processedResults"
| "processResults env scanId (result # results) processedResults =
     await (\<lambda>w. (analyzeVulnerability result, w)) (\<lambda>aiAnalysis.
     await (query env (insert_result scanId result aiAnalysis)) (\<lambda>rid.
     processResults env scanId results
       (processedResults @ [\<lparr>pr_id = rid, pr_result = result, pr_ai_analysis = aiAnalysis\<rparr>])))"

text \<open>The \<^verbatim>\<open>switch (scanType)\<close>.\<close>

definition dispatch :: "env \<Rightarrow> string \<Rightarrow> string \<Rightarrow> raw_finding list action" where
  "dispatch env target scanType =
     (if scanType = ''nmap'' then invoke env Nmap target
      else if scanType = ''nikto'' then invoke env Nikto target
      else if scanType = ''sqlmap'' then invoke env Sqlmap target
      else if scanType = ''zap'' then invoke env Zap target
      else if scanType = ''comprehensive'' then
        await (updateProgress env 20) (\<lambda>u.
        await (invoke env Nmap target) (\<lambda>nmapResults.
        await (updateProgress env 40) (\<lambda>u.
        await (invoke env Nikto target) (\<lambda>niktoResults.
        await (updateProgress env 60) (\<lambda>u.
        await (invoke env Sqlmap target) (\<lambda>sqlmapResults.
        return (nmapResults @ niktoResults @ sqlmapResults)))))))
      else throw (JsError (''Unsupported scan type: '' @ scanType)))"

text \<open>The outer \<^verbatim>\<open>try\<close>/\<^verbatim>\<open>catch\<close> of \<^verbatim>\<open>executeScan\<close> logs the error and throws it again.\<close>

definition executeScan :: "env \<Rightarrow> scan_id \<Rightarrow> string \<Rightarrow> string \<Rightarrow> processed list action" where
  "executeScan env scanId target scanType =
     await (updateProgress env 10) (\<lambda>u.
     await (dispatch env target scanType) (\<lambda>results.
     await (updateProgress env 80) (\<lambda>u.
     await (processResults env scanId results []) (\<lambda>processedResults.
     await (updateProgress env 100) (\<lambda>u.
     return processedResults)))))"

record job_data =
  scanId :: scan_id
  target :: string
  scanType :: string

record handler_result =
  success :: bool
  vulnerabilities :: nat

text \<open>The function given to \<^verbatim>\<open>new Worker('scan-processing', ...)\<close>. In the \<^verbatim>\<open>catch\<close> block the
  update to status error may itself throw; then that error leaves the handler.\<close>

definition scanWorker :: "env \<Rightarrow> job_data \<Rightarrow> handler_result action" where
  "scanWorker env d w =
     (case
        (await (query env (set_running (scanId d))) (\<lambda>u.
         await (executeScan env (scanId d) (target d) (scanType d)) (\<lambda>scanResults.
         await (query env (set_complete (scanId d))) (\<lambda>u.
         return \<lparr>success = True, vulnerabilities = length scanResults\<rparr>)))) w
      of
        (Inr r, w') \<Rightarrow> (Inr r, w')
      | (Inl error, w') \<Rightarrow>
          await (query env (set_error (scanId d) (message error))) (\<lambda>u. throw error) w')"

section \<open>The queue's retry policy\<close>

text \<open>
  The queue is the BullMQ library; the repository configures it (\<^verbatim>\<open>defaultJobOptions\<close>):
  three attempts, exponential backoff from 2000 ms. The library's policy, as the
  configuration names it: a job whose handler throws has its attempt counted; while fewer
  attempts than \<open>attempts\<close> were made it is scheduled again after the backoff delay,
  \<open>2 ^ (attemptsMade - 1) * delay\<close> for the exponential kind, and otherwise it is failed
  with the error's message as \<^verbatim>\<open>failedReason\<close>. A job whose handler returns is completed.
  The field \<open>retry_delays\<close> records the delays of the retries that were scheduled.
\<close>

datatype backoff_type = Exponential | Fixed

record job_options =
  removeOnComplete :: nat
  removeOnFail :: nat
  attempts :: nat
  backoff_kind :: backoff_type
  backoff_delay :: nat

definition defaultJobOptions :: job_options where
  "defaultJobOptions =
     \<lparr>removeOnComplete = 10, removeOnFail = 5, attempts = 3,
      backoff_kind = Exponential, backoff_delay = 2000\<rparr>"

datatype job_state = Waiting | Active | Delayed | Completed | Failed

record job =
  data :: job_data
  state :: job_state
  attemptsMade :: nat
  returnvalue :: "handler_result option"
  failedReason :: "string option"
  retry_delays :: "nat list"

text \<open>\<^verbatim>\<open>scanQueue.add('process-scan', scanData, ...)\<close>\<close>

definition addScanJob :: "job_data \<Rightarrow> job" where
  "addScanJob scanData =
     \<lparr>data = scanData, state = Waiting, attemptsMade = 0, returnvalue = None,
      failedReason = None, retry_delays = []\<rparr>"

definition backoff :: "job_options \<Rightarrow> nat \<Rightarrow> nat" where
  "backoff opts made =
     (case backoff_kind opts of
        Exponential \<Rightarrow> 2 ^ (made - 1) * backoff_delay opts
      | Fixed \<Rightarrow> backoff_delay opts)"

function process_job :: "env \<Rightarrow> job_options \<Rightarrow> job \<Rightarrow> world \<Rightarrow> job \<times> world" where
  "process_job env opts j w =
     (case scanWorker env (data j) w of
        (Inr r, w') \<Rightarrow> (j\<lparr>state := Completed, returnvalue := Some r\<rparr>, w')
      | (Inl e, w') \<Rightarrow>
          (if Suc (attemptsMade j) < attempts opts
           then process_job env opts
                  (j\<lparr>state := Delayed, attemptsMade := Suc (attemptsMade j),
                     retry_delays := retry_delays j @ [backoff opts (Suc (attemptsMade j))]\<rparr>) w'
           else (j\<lparr>state := Failed, attemptsMade := Suc (attemptsMade j),
                   failedReason := Some (message e)\<rparr>, w')))"
  by pat_completeness auto
termination
  by (relation "measure (\<lambda>(env, opts, j, w). attempts opts - attemptsMade j)") auto

declare process_job.simps [simp del]

section \<open>Reading the log\<close>

fun status_writes :: "event list \<Rightarrow> scan_status list" where
  "status_writes [] = []"
| "status_writes (StatusWritten i s # es) = s # status_writes es"
| "status_writes (e # es) = status_writes es"

fun progress_reports :: "event list \<Rightarrow> nat list" where
  "progress_reports [] = []"
| "progress_reports (ProgressReported n # es) = n # progress_reports es"
| "progress_reports (e # es) = progress_reports es"

fun adapters_invoked :: "event list \<Rightarrow> tool list" where
  "adapters_invoked [] = []"
| "adapters_invoked (AdapterInvoked t # es) = t # adapters_invoked es"
| "adapters_invoked (e # es) = adapters_invoked es"

text \<open>The analysis that \<open>analyzeVulnerability\<close> returns, and the rows of a list of raw
  findings stored one after the other from result id \<open>n\<close> on.\<close>

definition analysis_of :: "raw_finding \<Rightarrow> analysis" where
  "analysis_of r = (case performAnalysis r of Inr a \<Rightarrow> a | Inl e \<Rightarrow> getFallbackAnalysis r)"

fun rows_for :: "nat \<Rightarrow> scan_id \<Rightarrow> raw_finding list \<Rightarrow> result_row list" where
  "rows_for n sid [] = []"
| "rows_for n sid (r # rs) = result_row_of n sid r (analysis_of r) # rows_for (Suc n) sid rs"

section \<open>Notions used in the statements\<close>

text \<open>The thresholds as the specification words them: at least 9.0 critical, at least 7.0
  high, at least 4.0 medium, above 0.0 low, otherwise info.\<close>

definition spec_risk_level :: "rat \<Rightarrow> risk_level" where
  "spec_risk_level score =
     (if score \<ge> 9 then Critical
      else if score \<ge> 7 then High
      else if score \<ge> 4 then Medium
      else if score > 0 then Low
      else Info)"

text \<open>No query and no progress update fails.\<close>

definition no_failure :: "env \<Rightarrow> bool" where
  "no_failure env = (\<forall>n. io_failure env n = None)"

text \<open>The scan types the \<^verbatim>\<open>switch\<close> has a case for.\<close>

definition supported :: "string \<Rightarrow> bool" where
  "supported ty = (ty \<in> {''nmap'', ''nikto'', ''sqlmap'', ''zap'', ''comprehensive''})"

text \<open>What the adapter of tool \<open>t\<close> returns when it runs at tick \<open>n\<close>.\<close>

definition findings_of :: "env \<Rightarrow> tool \<Rightarrow> nat \<Rightarrow> string \<Rightarrow> raw_finding list" where
  "findings_of env t n tg =
     (case run_adapter t (parsers env) (tool_run env n) tg of Inr fs \<Rightarrow> fs | Inl e \<Rightarrow> [])"

text \<open>The external process timed out, ended with a code other than 0, or could not be
  spawned.\<close>

fun tool_failed :: "proc_result \<Rightarrow> bool" where
  "tool_failed TimedOut = True"
| "tool_failed (Closed code output errorOutput) = (code \<noteq> Some 0)"
| "tool_failed (SpawnError e) = True"

section \<open>Concrete inputs\<close>

definition ssh_finding :: raw_finding where
  "ssh_finding = no_finding\<lparr>vulnerability_type := JString ''Open Port'',
     service := Some ''ssh'', port := Some 22\<rparr>"

definition sql_cve_finding :: raw_finding where
  "sql_cve_finding = no_finding\<lparr>vulnerability_type := JString ''SQL Injection'',
     title := JString ''SQL Injection in Login Form'', cve_id := Some ''CVE-2021-44228''\<rparr>"

definition rdp_cve_finding :: raw_finding where
  "rdp_cve_finding = no_finding\<lparr>vulnerability_type := JString ''Open Port'',
     port := Some 3389, cve_id := Some ''CVE-2019-0708''\<rparr>"

definition odd_finding :: raw_finding where
  "odd_finding = no_finding\<lparr>vulnerability_type := JNumber 3\<rparr>"

section \<open>Readings of the temporal claims on the log\<close>

text \<open>The terminal statuses, and the reading of "a terminal status is never changed again"
  on the list of the status values written for a scan, in the order of writing.\<close>

fun terminal :: "scan_status \<Rightarrow> bool" where
  "terminal St_complete = True"
| "terminal St_error = True"
| "terminal St_cancelled = True"
| "terminal s = False"

fun stays_terminal :: "scan_status list \<Rightarrow> bool" where
  "stays_terminal [] = True"
| "stays_terminal (s # ss) = ((terminal s \<longrightarrow> list_all (\<lambda>t. t = s) ss) \<and> stays_terminal ss)"

text \<open>The reading of "progress never decreases while the status is not terminal" on the
  log: at every progress report made while the last status written for scan \<open>sid\<close> (\<open>st\<close>
  at the start) is not terminal, the value is at least the last one reported (\<open>p\<close> at the
  start).\<close>

fun never_decreases_while_active :: "scan_id \<Rightarrow> scan_status \<Rightarrow> nat \<Rightarrow> event list \<Rightarrow> bool" where
  "never_decreases_while_active sid st p [] = True"
| "never_decreases_while_active sid st p (StatusWritten i s # es) =
     never_decreases_while_active sid (if i = sid then s else st) p es"
| "never_decreases_while_active sid st p (ProgressReported n # es) =
     ((terminal st \<or> p \<le> n) \<and> never_decreases_while_active sid st n es)"
| "never_decreases_while_active sid st p (e # es) = never_decreases_while_active sid st p es"

section \<open>Relations between the world before and after a step\<close>

text \<open>A step of \<^verbatim>\<open>executeScan\<close> leaves the \<^verbatim>\<open>scans\<close> table and the status writes alone, removes
  no stored result, and does not turn the clock back.\<close>

definition quiet :: "world \<Rightarrow> world \<Rightarrow> bool" where
  "quiet w w' =
     (scans w' = scans w \<and> status_writes (events w') = status_writes (events w)
      \<and> clock w \<le> clock w' \<and> prefix (scan_results w) (scan_results w'))"

text \<open>The progress values reported during a step are in ascending order and lie between
  \<open>lo\<close> and \<open>hi\<close>; the job's progress is the last of them.\<close>

definition reports :: "nat \<Rightarrow> nat \<Rightarrow> world \<Rightarrow> world \<Rightarrow> bool" where
  "reports lo hi w w' =
     (\<exists>ps. progress_reports (events w') = progress_reports (events w) @ ps
         \<and> sorted ps \<and> (\<forall>p\<in>set ps. lo \<le> p \<and> p \<le> hi)
         \<and> job_progress w' = (if ps = [] then job_progress w else last ps))"

text \<open>Where an error of \<^verbatim>\<open>executeScan\<close> comes from: the operation that failed last, or the
  \<^verbatim>\<open>default\<close> case of the \<^verbatim>\<open>switch\<close>.\<close>

definition explained :: "env \<Rightarrow> string \<Rightarrow> world \<Rightarrow> exn + 'a \<Rightarrow> bool" where
  "explained env ty w' res =
     (case res of
        Inr x \<Rightarrow> True
      | Inl e \<Rightarrow> (\<exists>m. e = JsError m
                    \<and> (io_failure env (clock w' - 1) = Some m \<and> 0 < clock w'
                       \<or> m = ''Unsupported scan type: '' @ ty \<and> \<not> supported ty)))"

text \<open>The three facts about a step, together.\<close>

definition step_ok :: "env \<Rightarrow> string \<Rightarrow> nat \<Rightarrow> nat \<Rightarrow> world \<Rightarrow> exn + 'a \<Rightarrow> world \<Rightarrow> bool" where
  "step_ok env ty lo hi w res w' = (quiet w w' \<and> reports lo hi w w' \<and> explained env ty w' res)"

section \<open>Concrete runs\<close>

definition tool_timeout :: tool_io where
  "tool_timeout = \<lparr>proc = TimedOut, report = Inl (JsError ''ENOENT''), mkdir = Inr ()\<rparr>"

definition no_parsers :: parsers where
  "no_parsers = \<lparr>nmap_xml_findings = (\<lambda>x. None), nikto_line_findings = (\<lambda>x. [])\<rparr>"

text \<open>Nothing fails in the store or the queue; every tool times out.\<close>

definition env_ok :: env where
  "env_ok = \<lparr>io_failure = (\<lambda>n. None), tool_run = (\<lambda>n. tool_timeout), parsers = no_parsers\<rparr>"

text \<open>The operations that start at the ticks in \<open>ks\<close> fail.\<close>

definition env_failing_at :: "nat list \<Rightarrow> env" where
  "env_failing_at ks =
     \<lparr>io_failure = (\<lambda>n. if n \<in> set ks then Some ''connection lost'' else None),
      tool_run = (\<lambda>n. tool_timeout), parsers = no_parsers\<rparr>"

definition new_scan :: scan_row where
  "new_scan = \<lparr>status = St_pending, progress = 0, error_message = None,
     started_at = None, completed_at = None\<rparr>"

definition world0 :: world where
  "world0 = \<lparr>scans = [1 \<mapsto> new_scan], scan_results = [], next_result_id = 0,
     job_progress = 0, clock = 0, events = []\<rparr>"

definition zap_job :: job_data where
  "zap_job = \<lparr>scanId = 1, target = ''example.com'', scanType = ''zap''\<rparr>"

definition comprehensive_job :: job_data where
  "comprehensive_job = \<lparr>scanId = 1, target = ''example.com'', scanType = ''comprehensive''\<rparr>"

section \<open>Risk classification: the score and the level\<close>

lemma floor_rat_numeral_divide: "\<lfloor>numeral a / numeral b :: rat\<rfloor> = numeral a div numeral b"
  using floor_divide_of_int_eq [of "numeral a" "numeral b", where ?'a = rat] by simp

lemma floor_rat_one_divide: "\<lfloor>1 / numeral b :: rat\<rfloor> = 1 div numeral b"
  using floor_divide_of_int_eq [of 1 "numeral b", where ?'a = rat] by simp

lemmas floor_rat = floor_rat_numeral_divide floor_rat_one_divide

lemmas classify_defs =
  analyzeVulnerability_def try_catch_def performAnalysis_def calculateContextualRisk_def
  cappedScore_def Let_def

lemma riskMultiplier_cases:
  "riskMultiplier r \<in> {1, 12/10, 13/10, 14/10, 15/10, 16/10, 17/10, 19/10}"
  by (simp add: riskMultiplier_def)

text \<open>On the seven profiles and the eight multipliers the source's last threshold (at least
  0.1) and the specification's (above 0.0) select the same level, and rounding the score to
  one decimal does not move it across a threshold.\<close>

lemma level_on_database:
  assumes "m \<in> {1, 12/10, 13/10, 14/10, 15/10, 16/10, 17/10, 19/10 :: rat}"
  shows "(let s = min (base_cvss (vulnerabilityDatabase pat) * m) 10 in
          (if s \<ge> 9 then Critical else if s \<ge> 7 then High else if s \<ge> 4 then Medium
           else if s \<ge> 1/10 then Low else Info) = spec_risk_level s
          \<and> spec_risk_level (of_int (Math_round (s * 10)) / 10) = spec_risk_level s)"
  using assms
  by (cases pat) (auto simp add: spec_risk_level_def Math_round_def floor_rat Let_def)

lemma classified_level:
  assumes "identifyVulnerabilityPattern r = Inr pat"
  shows "\<exists>a. analyzeVulnerability r = Inr a
           \<and> an_risk_level a = spec_risk_level (cappedScore r (vulnerabilityDatabase pat))
           \<and> an_risk_level a = spec_risk_level (an_cvss_score a)
           \<and> an_cvss_score a
               = of_int (Math_round (cappedScore r (vulnerabilityDatabase pat) * 10)) / 10"
  using assms level_on_database [OF riskMultiplier_cases, of pat r]
  by (simp add: classify_defs)

lemma fallback_level:
  assumes "identifyVulnerabilityPattern r = Inl e"
  shows "analyzeVulnerability r = Inr (getFallbackAnalysis r)
       \<and> an_risk_level (getFallbackAnalysis r) = spec_risk_level (an_cvss_score (getFallbackAnalysis r))"
  using assms by (simp add: classify_defs getFallbackAnalysis_def spec_risk_level_def)

text \<open>
  Claim C5. For every classified raw finding the returned risk level is the one the
  thresholds give for the multiplied and capped score: at least 9.0 critical, at least 7.0
  high, at least 4.0 medium, above 0.0 low, otherwise info. It is also the level the
  thresholds give for the returned (rounded) score, for every raw finding, the fallback
  analysis included.
\<close>

theorem risk_level_by_thresholds:
  "(\<exists>a. analyzeVulnerability r = Inr a \<and> an_risk_level a = spec_risk_level (an_cvss_score a))
   \<and> (\<forall>pat. identifyVulnerabilityPattern r = Inr pat \<longrightarrow>
         (\<exists>a. analyzeVulnerability r = Inr a
            \<and> an_risk_level a = spec_risk_level (cappedScore r (vulnerabilityDatabase pat))
            \<and> an_cvss_score a
                = of_int (Math_round (cappedScore r (vulnerabilityDatabase pat) * 10)) / 10))"
proof (cases "identifyVulnerabilityPattern r")
  case (Inl e)
  with fallback_level [OF Inl] show ?thesis by simp
next
  case (Inr pat)
  from classified_level [OF Inr] obtain a where a: "analyzeVulnerability r = Inr a"
    "an_risk_level a = spec_risk_level (cappedScore r (vulnerabilityDatabase pat))"
    "an_risk_level a = spec_risk_level (an_cvss_score a)"
    "an_cvss_score a = of_int (Math_round (cappedScore r (vulnerabilityDatabase pat) * 10)) / 10"
    by blast
  have rounded: "\<exists>a. analyzeVulnerability r = Inr a \<and> an_risk_level a = spec_risk_level (an_cvss_score a)"
    using a(1,3) by blast
  have capped: "\<forall>pat'. identifyVulnerabilityPattern r = Inr pat' \<longrightarrow>
         (\<exists>a. analyzeVulnerability r = Inr a
            \<and> an_risk_level a = spec_risk_level (cappedScore r (vulnerabilityDatabase pat'))
            \<and> an_cvss_score a
                = of_int (Math_round (cappedScore r (vulnerabilityDatabase pat') * 10)) / 10)"
  proof (intro allI impI)
    fix pat' assume "identifyVulnerabilityPattern r = Inr pat'"
    with Inr have "pat' = pat" by simp
    then show "\<exists>a. analyzeVulnerability r = Inr a
            \<and> an_risk_level a = spec_risk_level (cappedScore r (vulnerabilityDatabase pat'))
            \<and> an_cvss_score a
                = of_int (Math_round (cappedScore r (vulnerabilityDatabase pat') * 10)) / 10"
      using a(1,2,4) by blast
  qed
  from rounded capped show ?thesis by (rule conjI)
qed

lemma ssh_finding_pattern: "identifyVulnerabilityPattern ssh_finding = Inr ssh_open"
  by (simp add: ssh_finding_def no_finding_def identifyVulnerabilityPattern_def or_else_def
      toLowerCase_def toLowerCase_char_def)

theorem risk_level_by_thresholds_witness:
  "identifyVulnerabilityPattern ssh_finding = Inr ssh_open
   \<and> (\<exists>a. analyzeVulnerability ssh_finding = Inr a
        \<and> an_risk_level a = spec_risk_level (cappedScore ssh_finding (vulnerabilityDatabase ssh_open))
        \<and> an_cvss_score a
            = of_int (Math_round (cappedScore ssh_finding (vulnerabilityDatabase ssh_open) * 10)) / 10)"
  using risk_level_by_thresholds [of ssh_finding] ssh_finding_pattern by simp

lemma starts_with_map: "starts_with h n \<Longrightarrow> starts_with (map f h) (map f n)"
  by (induction h n rule: starts_with.induct) auto

lemma str_includes_map: "str_includes h n \<Longrightarrow> str_includes (map f h) (map f n)"
proof (induction h)
  case Nil
  then show ?case by simp
next
  case (Cons c cs)
  then show ?case using starts_with_map [of "c # cs" n f] by auto
qed

lemma str_includes_toLowerCase_sql:
  "str_includes vt ''sql'' \<Longrightarrow> str_includes (toLowerCase vt) ''sql''"
  using str_includes_map [of vt "''sql''" toLowerCase_char]
  by (simp add: toLowerCase_def toLowerCase_char_def)

text \<open>
  Claim C6. A raw finding whose \<^verbatim>\<open>vulnerability_type\<close> contains \<^verbatim>\<open>sql\<close> (as it stands, or
  after lower-casing, which is what the source tests) and that carries a CVE id (a
  non-empty string), with no port among 22, 23, 3389 and no service among mysql,
  postgresql, mssql, is given the SQL-injection profile with base score 9.8 and the
  multiplier 1.4; the score is min (9.8 * 1.4) 10.0 = 10.0 and the level is critical.
\<close>

theorem sql_with_cve_is_critical:
  assumes "vulnerability_type r = JString vt"
    and "str_includes vt ''sql'' \<or> str_includes (toLowerCase vt) ''sql''"
    and "cve_id r = Some c" and "c \<noteq> []"
    and "\<forall>p. port r = Some p \<longrightarrow> p \<notin> {22, 23, 3389}"
    and "\<forall>s. service r = Some s \<longrightarrow> s \<notin> {''mysql'', ''postgresql'', ''mssql''}"
  shows "identifyVulnerabilityPattern r = Inr sql_injection
     \<and> base_cvss (vulnerabilityDatabase sql_injection) = 98 / 10
     \<and> riskMultiplier r = 14 / 10
     \<and> cappedScore r (vulnerabilityDatabase sql_injection) = min (98 / 10 * (14 / 10)) 10
     \<and> min (98 / 10 * (14 / 10)) (10 :: rat) = 10
     \<and> (\<exists>a. analyzeVulnerability r = Inr a \<and> an_cvss_score a = 10 \<and> an_risk_level a = Critical)"
proof -
  have low: "str_includes (toLowerCase vt) ''sql''"
    using assms(2) str_includes_toLowerCase_sql by blast
  have pat: "identifyVulnerabilityPattern r = Inr sql_injection"
    using assms(1) low by (simp add: identifyVulnerabilityPattern_def or_else_def)
  have mult: "riskMultiplier r = 14 / 10"
    using assms(3-6) by (cases "port r"; cases "service r") (auto simp add: riskMultiplier_def)
  have capped: "cappedScore r (vulnerabilityDatabase sql_injection) = 10"
    by (simp add: cappedScore_def mult)
  show ?thesis
    using pat mult capped
    by (simp add: analyzeVulnerability_def try_catch_def performAnalysis_def
        calculateContextualRisk_def Math_round_def floor_rat Let_def)
qed

theorem sql_with_cve_is_critical_witness:
  "vulnerability_type sql_cve_finding = JString ''SQL Injection''
   \<and> str_includes (toLowerCase ''SQL Injection'') ''sql''
   \<and> cve_id sql_cve_finding = Some ''CVE-2021-44228''
   \<and> identifyVulnerabilityPattern sql_cve_finding = Inr sql_injection
   \<and> riskMultiplier sql_cve_finding = 14 / 10
   \<and> (\<exists>a. analyzeVulnerability sql_cve_finding = Inr a
        \<and> an_cvss_score a = 10 \<and> an_risk_level a = Critical)"
proof -
  have h1: "vulnerability_type sql_cve_finding = JString ''SQL Injection''"
    and h3: "cve_id sql_cve_finding = Some ''CVE-2021-44228''"
    and h5: "\<forall>p. port sql_cve_finding = Some p \<longrightarrow> p \<notin> {22, 23, 3389}"
    and h6: "\<forall>s. service sql_cve_finding = Some s \<longrightarrow> s \<notin> {''mysql'', ''postgresql'', ''mssql''}"
    by (simp_all add: sql_cve_finding_def no_finding_def)
  have h2: "str_includes (toLowerCase ''SQL Injection'') ''sql''"
    by (simp add: toLowerCase_def toLowerCase_char_def)
  have h4: "''CVE-2021-44228'' \<noteq> []" by simp
  from sql_with_cve_is_critical [OF h1 disjI2 [OF h2] h3 h4 h5 h6] h1 h2 h3
  show ?thesis by simp
qed

text \<open>
  Claim C10. The level returned by classification depends on the matched profile only
  through its base score: the stored level of the profile is overridden (two profiles
  with the same base score give the same level, and the weak-cipher profile, stored as
  low, comes out as medium when a CVE id is present). A finding that matches the default
  open-port profile (base score 0.0) always gets level info and score 0.0, whatever the
  multiplier.
\<close>

theorem level_from_score_only:
  "(base_cvss b = base_cvss b' \<longrightarrow>
      cr_risk_level (calculateContextualRisk r b) = cr_risk_level (calculateContextualRisk r b'))
   \<and> (truthy_str (cve_id r) \<and> \<not> truthy_num (port r) \<and> \<not> truthy_str (service r) \<longrightarrow>
        cr_risk_level (calculateContextualRisk r (vulnerabilityDatabase ssl_weak_cipher)) = Medium
        \<and> db_risk_level (vulnerabilityDatabase ssl_weak_cipher) = Low)
   \<and> (identifyVulnerabilityPattern r = Inr open_port \<longrightarrow>
        (\<exists>a. analyzeVulnerability r = Inr a \<and> an_risk_level a = Info \<and> an_cvss_score a = 0))"
proof (intro conjI impI)
  assume "base_cvss b = base_cvss b'"
  then show "cr_risk_level (calculateContextualRisk r b) = cr_risk_level (calculateContextualRisk r b')"
    by (simp add: calculateContextualRisk_def cappedScore_def)
next
  assume "truthy_str (cve_id r) \<and> \<not> truthy_num (port r) \<and> \<not> truthy_str (service r)"
  then have "riskMultiplier r = 14 / 10"
    by (simp add: riskMultiplier_def)
  then show "cr_risk_level (calculateContextualRisk r (vulnerabilityDatabase ssl_weak_cipher)) = Medium"
    by (simp add: calculateContextualRisk_def cappedScore_def)
next
  show "db_risk_level (vulnerabilityDatabase ssl_weak_cipher) = Low" by simp
next
  assume pat: "identifyVulnerabilityPattern r = Inr open_port"
  have "cappedScore r (vulnerabilityDatabase open_port) = 0"
    by (simp add: cappedScore_def)
  with pat show "\<exists>a. analyzeVulnerability r = Inr a \<and> an_risk_level a = Info \<and> an_cvss_score a = 0"
    by (simp add: analyzeVulnerability_def try_catch_def performAnalysis_def
        calculateContextualRisk_def Math_round_def floor_rat Let_def)
qed

lemma rdp_cve_finding_pattern: "identifyVulnerabilityPattern rdp_cve_finding = Inr open_port"
  by (simp add: rdp_cve_finding_def no_finding_def identifyVulnerabilityPattern_def or_else_def
      toLowerCase_def toLowerCase_char_def)

theorem level_from_score_only_witness:
  "identifyVulnerabilityPattern rdp_cve_finding = Inr open_port
   \<and> riskMultiplier rdp_cve_finding = 16 / 10
   \<and> truthy_str (cve_id rdp_cve_finding)
   \<and> (\<exists>a. analyzeVulnerability rdp_cve_finding = Inr a \<and> an_risk_level a = Info \<and> an_cvss_score a = 0)
   \<and> cr_risk_level (calculateContextualRisk sql_cve_finding (vulnerabilityDatabase ssl_weak_cipher)) = Medium
   \<and> cr_risk_level (calculateContextualRisk rdp_cve_finding (vulnerabilityDatabase open_port))
       = cr_risk_level (calculateContextualRisk rdp_cve_finding
           ((vulnerabilityDatabase open_port)\<lparr>db_risk_level := Critical\<rparr>))"
proof -
  have m: "riskMultiplier rdp_cve_finding = 16 / 10"
    by (simp add: riskMultiplier_def rdp_cve_finding_def no_finding_def)
  have c: "truthy_str (cve_id rdp_cve_finding)"
    by (simp add: rdp_cve_finding_def no_finding_def)
  have s: "truthy_str (cve_id sql_cve_finding) \<and> \<not> truthy_num (port sql_cve_finding)
           \<and> \<not> truthy_str (service sql_cve_finding)"
    by (simp add: sql_cve_finding_def no_finding_def)
  have b: "base_cvss (vulnerabilityDatabase open_port)
           = base_cvss ((vulnerabilityDatabase open_port)\<lparr>db_risk_level := Critical\<rparr>)"
    by simp
  from level_from_score_only [of "vulnerabilityDatabase open_port"
         "(vulnerabilityDatabase open_port)\<lparr>db_risk_level := Critical\<rparr>" rdp_cve_finding]
       level_from_score_only [of "vulnerabilityDatabase open_port"
         "vulnerabilityDatabase open_port" sql_cve_finding]
       rdp_cve_finding_pattern m c s b
  show ?thesis by simp
qed

section \<open>The engine: what one operation does\<close>


lemma status_writes_append [simp]: "status_writes (xs @ ys) = status_writes xs @ status_writes ys"
  by (induction xs rule: status_writes.induct) auto
lemma progress_reports_append [simp]: "progress_reports (xs @ ys) = progress_reports xs @ progress_reports ys"
  by (induction xs rule: progress_reports.induct) auto
lemma adapters_invoked_append [simp]: "adapters_invoked (xs @ ys) = adapters_invoked xs @ adapters_invoked ys"
  by (induction xs rule: adapters_invoked.induct) auto

lemma awaitE:
  assumes "await m f w = (r, w')"
  obtains (threw) e where "m w = (Inl e, w')" and "r = Inl e"
        | (went) x w1 where "m w = (Inr x, w1)" and "f x w1 = (r, w')"
  using assms by (auto simp add: await_def split: prod.splits sum.splits)

lemma analyzeVulnerability_Inr: "analyzeVulnerability r = Inr (analysis_of r)"
  by (simp add: analyzeVulnerability_def try_catch_def analysis_of_def split: sum.splits)

lemma run_adapter_Inr: "\<exists>fs. run_adapter t ps tio tg = Inr fs"
  by (cases t) (auto simp add: runNmapScan_def runNiktoScan_def runSqlmapScan_def runZapScan_def try_catch_def split: sum.splits)

text \<open>What one operation of the store or the queue can do.\<close>

lemma updateProgress_cases:
  assumes "updateProgress env n w = (r, w')"
  shows "(\<exists>m. io_failure env (clock w) = Some m \<and> r = Inl (JsError m) \<and> w' = tick w)
       \<or> (io_failure env (clock w) = None \<and> r = Inr ()
          \<and> w' = tick (w\<lparr>job_progress := n, events := events w @ [ProgressReported n]\<rparr>))"
  using assms by (auto simp add: updateProgress_def split: option.splits)

lemma query_cases:
  assumes "query env st w = (r, w')"
  shows "(\<exists>m. io_failure env (clock w) = Some m \<and> r = Inl (JsError m) \<and> w' = tick w)
       \<or> (io_failure env (clock w) = None \<and> r = Inr (fst (st w)) \<and> w' = tick (snd (st w)))"
  using assms by (auto simp add: query_def split: option.splits prod.splits)

lemma processResults_effect:
  assumes "processResults env sid rs acc w = (res, w')"
  shows "\<exists>k\<le>length rs.
           scan_results w' = scan_results w @ rows_for (next_result_id w) sid (take k rs)
         \<and> next_result_id w' = next_result_id w + k
         \<and> (case res of Inr ps \<Rightarrow> k = length rs \<and> length ps = length acc + length rs
                       | Inl e \<Rightarrow> k < length rs \<and> 0 < clock w'
                                  \<and> (\<exists>m. e = JsError m \<and> io_failure env (clock w' - 1) = Some m))
         \<and> scans w' = scans w \<and> job_progress w' = job_progress w
         \<and> clock w \<le> clock w'
         \<and> status_writes (events w') = status_writes (events w)
         \<and> progress_reports (events w') = progress_reports (events w)
         \<and> adapters_invoked (events w') = adapters_invoked (events w)"
  using assms
proof (induction rs arbitrary: acc w)
  case Nil
  then show ?case by (auto simp add: return_def)
next
  case (Cons r rs)
  let ?a = "analysis_of r"
  from Cons.prems have step:
    "await (query env (insert_result sid r ?a))
       (\<lambda>rid. processResults env sid rs (acc @ [\<lparr>pr_id = rid, pr_result = r, pr_ai_analysis = ?a\<rparr>])) w = (res, w')"
    by (simp add: await_def analyzeVulnerability_Inr)
  from step show ?case
  proof (cases rule: awaitE)
    case (threw e)
    from query_cases [OF threw(1)] threw(2) show ?thesis
      by (intro exI [of _ 0]) (auto simp add: tick_def)
  next
    case (went rid w1)
    from query_cases [OF went(1)] have w1: "w1 = tick (snd (insert_result sid r ?a w))"
      by auto
    from Cons.IH [OF went(2)] obtain k where k: "k \<le> length rs"
      "scan_results w' = scan_results w1 @ rows_for (next_result_id w1) sid (take k rs)"
      "next_result_id w' = next_result_id w1 + k"
      "(case res of Inr ps \<Rightarrow> k = length rs \<and> length ps = length (acc @ [\<lparr>pr_id = rid, pr_result = r, pr_ai_analysis = ?a\<rparr>]) + length rs
                       | Inl e \<Rightarrow> k < length rs \<and> 0 < clock w'
                                  \<and> (\<exists>m. e = JsError m \<and> io_failure env (clock w' - 1) = Some m))"
      "scans w' = scans w1" "job_progress w' = job_progress w1" "clock w1 \<le> clock w'"
      "status_writes (events w') = status_writes (events w1)"
      "progress_reports (events w') = progress_reports (events w1)"
      "adapters_invoked (events w') = adapters_invoked (events w1)"
      by blast
    show ?thesis
      using k unfolding w1
      by (intro exI [of _ "Suc k"]) (auto simp add: tick_def insert_result_def Let_def split: sum.splits)
  qed
qed


lemma invoke_cases:
  assumes "invoke env t tg w = (r, w')"
  shows "\<exists>fs. r = Inr fs \<and> run_adapter t (parsers env) (tool_run env (clock w)) tg = Inr fs
           \<and> w' = tick (w\<lparr>events := events w @ [AdapterInvoked t]\<rparr>)"
  using assms run_adapter_Inr [of t "parsers env" "tool_run env (clock w)" tg]
  by (auto simp add: invoke_def)


lemma invoke_eq:
  "invoke env t tg w = (Inr (findings_of env t (clock w) tg), tick (w\<lparr>events := events w @ [AdapterInvoked t]\<rparr>))"
  using run_adapter_Inr [of t "parsers env" "tool_run env (clock w)" tg]
  by (auto simp add: invoke_def findings_of_def)

lemma updateProgress_ok:
  "no_failure env \<Longrightarrow> updateProgress env n w
     = (Inr (), tick (w\<lparr>job_progress := n, events := events w @ [ProgressReported n]\<rparr>))"
  by (simp add: updateProgress_def no_failure_def)

lemma query_ok:
  "no_failure env \<Longrightarrow> query env st w = (Inr (fst (st w)), tick (snd (st w)))"
  by (simp add: query_def no_failure_def split: prod.splits)

lemma dispatch_comprehensive_ok:
  assumes "no_failure env"
  shows "\<exists>w'. dispatch env tg ''comprehensive'' w =
           (Inr (findings_of env Nmap (clock w + 1) tg @ findings_of env Nikto (clock w + 3) tg
                 @ findings_of env Sqlmap (clock w + 5) tg), w')
         \<and> progress_reports (events w') = progress_reports (events w) @ [20, 40, 60]
         \<and> adapters_invoked (events w') = adapters_invoked (events w) @ [Nmap, Nikto, Sqlmap]
         \<and> status_writes (events w') = status_writes (events w)
         \<and> scans w' = scans w \<and> scan_results w' = scan_results w
         \<and> next_result_id w' = next_result_id w \<and> job_progress w' = 60"
  by (simp add: dispatch_def await_def return_def updateProgress_ok [OF assms] invoke_eq tick_def)
    (simp add: eval_nat_numeral)



lemma processResults_ok:
  assumes "no_failure env"
  shows "\<exists>ps w'. processResults env sid rs acc w = (Inr ps, w')
         \<and> length ps = length acc + length rs
         \<and> scan_results w' = scan_results w @ rows_for (next_result_id w) sid rs
         \<and> scans w' = scans w \<and> job_progress w' = job_progress w
         \<and> status_writes (events w') = status_writes (events w)
         \<and> progress_reports (events w') = progress_reports (events w)
         \<and> adapters_invoked (events w') = adapters_invoked (events w)"
proof -
  obtain res w' where run: "processResults env sid rs acc w = (res, w')"
    by (cases "processResults env sid rs acc w")
  from processResults_effect [OF run] assms show ?thesis
    unfolding run by (cases res) (auto simp add: no_failure_def)
qed


section \<open>The engine when the store and the queue do not fail\<close>


lemma executeScan_after_dispatch:
  assumes nf: "no_failure env"
    and d: "dispatch env tg ty (tick (w\<lparr>job_progress := 10, events := events w @ [ProgressReported 10]\<rparr>)) = (Inr fs, w2)"
  shows "\<exists>ps w'. executeScan env sid tg ty w = (Inr ps, w')
         \<and> length ps = length fs
         \<and> scan_results w' = scan_results w2 @ rows_for (next_result_id w2) sid fs
         \<and> scans w' = scans w2 \<and> job_progress w' = 100
         \<and> status_writes (events w') = status_writes (events w2)
         \<and> progress_reports (events w') = progress_reports (events w2) @ [80, 100]
         \<and> adapters_invoked (events w') = adapters_invoked (events w2)"
proof -
  let ?w3 = "tick (w2\<lparr>job_progress := 80, events := events w2 @ [ProgressReported 80]\<rparr>)"
  obtain ps w4 where p: "processResults env sid fs [] ?w3 = (Inr ps, w4)"
    "length ps = length fs"
    "scan_results w4 = scan_results ?w3 @ rows_for (next_result_id ?w3) sid fs"
    "scans w4 = scans ?w3" "job_progress w4 = job_progress ?w3"
    "status_writes (events w4) = status_writes (events ?w3)"
    "progress_reports (events w4) = progress_reports (events ?w3)"
    "adapters_invoked (events w4) = adapters_invoked (events ?w3)"
    using processResults_ok [OF nf, of sid fs "[]" ?w3] by auto
  have "executeScan env sid tg ty w
        = (Inr ps, tick (w4\<lparr>job_progress := 100, events := events w4 @ [ProgressReported 100]\<rparr>))"
    by (simp add: executeScan_def await_def return_def updateProgress_ok [OF nf] d p(1))
  with p(2-) show ?thesis by (simp add: tick_def)
qed

lemma executeScan_comprehensive_ok:
  assumes nf: "no_failure env"
  shows "\<exists>ps w'. executeScan env sid tg ''comprehensive'' w = (Inr ps, w')
         \<and> scan_results w' = scan_results w @ rows_for (next_result_id w) sid
              (findings_of env Nmap (clock w + 2) tg @ findings_of env Nikto (clock w + 4) tg
               @ findings_of env Sqlmap (clock w + 6) tg)
         \<and> length ps = length (findings_of env Nmap (clock w + 2) tg @ findings_of env Nikto (clock w + 4) tg
               @ findings_of env Sqlmap (clock w + 6) tg)
         \<and> scans w' = scans w \<and> job_progress w' = 100
         \<and> status_writes (events w') = status_writes (events w)
         \<and> progress_reports (events w') = progress_reports (events w) @ [10, 20, 40, 60, 80, 100]
         \<and> adapters_invoked (events w') = adapters_invoked (events w) @ [Nmap, Nikto, Sqlmap]"
proof -
  let ?w1 = "tick (w\<lparr>job_progress := 10, events := events w @ [ProgressReported 10]\<rparr>)"
  obtain w2 where d: "dispatch env tg ''comprehensive'' ?w1 =
           (Inr (findings_of env Nmap (clock ?w1 + 1) tg @ findings_of env Nikto (clock ?w1 + 3) tg
                 @ findings_of env Sqlmap (clock ?w1 + 5) tg), w2)"
         "progress_reports (events w2) = progress_reports (events ?w1) @ [20, 40, 60]"
         "adapters_invoked (events w2) = adapters_invoked (events ?w1) @ [Nmap, Nikto, Sqlmap]"
         "status_writes (events w2) = status_writes (events ?w1)"
         "scans w2 = scans ?w1" "scan_results w2 = scan_results ?w1"
         "next_result_id w2 = next_result_id ?w1"
    using dispatch_comprehensive_ok [OF nf, of tg ?w1] by blast
  have c: "clock ?w1 + 1 = clock w + 2" "clock ?w1 + 3 = clock w + 4" "clock ?w1 + 5 = clock w + 6"
    by (simp_all add: tick_def)
  from executeScan_after_dispatch [OF nf d(1), of sid] d(2-) show ?thesis
    unfolding c by (auto simp add: tick_def)
qed





section \<open>The engine under arbitrary failures\<close>



lemma quiet_refl: "quiet w w"
  by (simp add: quiet_def)

lemma quiet_trans: "quiet w w1 \<Longrightarrow> quiet w1 w2 \<Longrightarrow> quiet w w2"
  by (auto simp add: quiet_def)

lemma reports_none:
  "progress_reports (events w') = progress_reports (events w) \<Longrightarrow> job_progress w' = job_progress w
   \<Longrightarrow> reports lo hi w w'"
  by (simp add: reports_def)

lemma reports_trans:
  assumes "reports a b w w1" and "reports c d w1 w2" and "b \<le> c" and "a \<le> b" and "c \<le> d"
  shows "reports a d w w2"
proof -
  from assms(1) obtain ps where ps: "progress_reports (events w1) = progress_reports (events w) @ ps"
    "sorted ps" "\<forall>p\<in>set ps. a \<le> p \<and> p \<le> b"
    "job_progress w1 = (if ps = [] then job_progress w else last ps)"
    by (auto simp add: reports_def)
  from assms(2) obtain qs where qs: "progress_reports (events w2) = progress_reports (events w1) @ qs"
    "sorted qs" "\<forall>p\<in>set qs. c \<le> p \<and> p \<le> d"
    "job_progress w2 = (if qs = [] then job_progress w1 else last qs)"
    by (auto simp add: reports_def)
  have "sorted (ps @ qs)"
    using ps(2,3) qs(2,3) assms(3) by (fastforce simp add: sorted_append)
  moreover have "\<forall>p\<in>set (ps @ qs). a \<le> p \<and> p \<le> d"
    using ps(3) qs(3) assms(3-5) by fastforce
  moreover have "job_progress w2 = (if ps @ qs = [] then job_progress w else last (ps @ qs))"
    using ps(4) qs(4) by simp
  moreover have "progress_reports (events w2) = progress_reports (events w) @ (ps @ qs)"
    using ps(1) qs(1) by simp
  ultimately show ?thesis unfolding reports_def by blast
qed

lemma await_step_ok:
  assumes run: "await m f w = (res, w')"
    and m: "\<And>r w1. m w = (r, w1) \<Longrightarrow> step_ok env ty a b w r w1"
    and f: "\<And>x w1 r w2. f x w1 = (r, w2) \<Longrightarrow> step_ok env ty c d w1 r w2"
    and le: "a \<le> b" "b \<le> c" "c \<le> d"
  shows "step_ok env ty a d w res w'"
  using run
proof (cases rule: awaitE)
  case (threw e)
  from m [OF threw(1)] have "quiet w w'" "reports a b w w'" "explained env ty w' (Inl e)"
    by (simp_all add: step_ok_def explained_def)
  moreover from \<open>reports a b w w'\<close> le have "reports a d w w'"
    by (fastforce simp add: reports_def)
  ultimately show ?thesis using threw(2) by (simp add: step_ok_def explained_def)
next
  case (went x w1)
  from m [OF went(1)] have 1: "quiet w w1" "reports a b w w1"
    by (simp_all add: step_ok_def)
  from f [OF went(2)] have 2: "quiet w1 w'" "reports c d w1 w'" "explained env ty w' res"
    by (simp_all add: step_ok_def)
  from quiet_trans [OF 1(1) 2(1)] reports_trans [OF 1(2) 2(2) le(2) le(1) le(3)] 2(3)
  show ?thesis by (simp add: step_ok_def)
qed

lemma reports_one:
  "progress_reports (events w') = progress_reports (events w) @ [n] \<Longrightarrow> job_progress w' = n
   \<Longrightarrow> reports n n w w'"
  unfolding reports_def by (intro exI [of _ "[n]"]) simp

lemma updateProgress_step_ok:
  assumes "updateProgress env n w = (r, w')"
  shows "step_ok env ty n n w r w'"
proof -
  from updateProgress_cases [OF assms] show ?thesis
  proof (elim disjE exE conjE)
    fix m assume "io_failure env (clock w) = Some m" "r = Inl (JsError m)" "w' = tick w"
    then show ?thesis
      by (simp add: step_ok_def quiet_def reports_none explained_def tick_def)
  next
    assume "io_failure env (clock w) = None" "r = Inr ()"
      "w' = tick (w\<lparr>job_progress := n, events := events w @ [ProgressReported n]\<rparr>)"
    then show ?thesis
      by (simp add: step_ok_def quiet_def reports_one explained_def tick_def)
  qed
qed

lemma invoke_step_ok:
  assumes "invoke env t tg w = (r, w')"
  shows "step_ok env ty lo hi w r w'"
proof -
  from invoke_cases [OF assms] obtain fs where "r = Inr fs"
    "w' = tick (w\<lparr>events := events w @ [AdapterInvoked t]\<rparr>)" by blast
  then show ?thesis
    by (simp add: step_ok_def quiet_def reports_none explained_def tick_def)
qed

lemma return_step_ok:
  assumes "return x w = (r, w')"
  shows "step_ok env ty lo hi w r w'"
  using assms by (auto simp add: return_def step_ok_def quiet_def reports_none explained_def)

lemma processResults_step_ok:
  assumes "processResults env sid rs acc w = (r, w')"
  shows "step_ok env ty lo hi w r w'"
proof -
  from processResults_effect [OF assms] obtain k where k:
    "scan_results w' = scan_results w @ rows_for (next_result_id w) sid (take k rs)"
    "(case r of Inr ps \<Rightarrow> k = length rs \<and> length ps = length acc + length rs
              | Inl e \<Rightarrow> k < length rs \<and> 0 < clock w'
                         \<and> (\<exists>m. e = JsError m \<and> io_failure env (clock w' - 1) = Some m))"
    "scans w' = scans w" "job_progress w' = job_progress w" "clock w \<le> clock w'"
    "status_writes (events w') = status_writes (events w)"
    "progress_reports (events w') = progress_reports (events w)"
    by blast
  have "quiet w w'" using k by (simp add: quiet_def)
  moreover have "reports lo hi w w'" using k by (simp add: reports_none)
  moreover have "explained env ty w' r" using k(2) by (cases r) (auto simp add: explained_def)
  ultimately show ?thesis by (simp add: step_ok_def)
qed



lemma throw_step_ok:
  assumes "throw (JsError (''Unsupported scan type: '' @ ty)) w = (r, w')" and "\<not> supported ty"
  shows "step_ok env ty lo hi w r w'"
  using assms by (auto simp add: throw_def step_ok_def quiet_def reports_none explained_def)

lemma dispatch_comprehensive_step_ok:
  assumes "dispatch env tg ''comprehensive'' w = (r, w')"
  shows "step_ok env ty 20 60 w r w'"
proof -
  have s6: "step_ok env ty 60 60 w r w'"
    if "await (invoke env Sqlmap tg) (\<lambda>s. return (ns @ ks @ s)) w = (r, w')" for ns ks w r w'
    using that
    by (rule await_step_ok [where a = 60 and b = 60 and c = 60])
       (auto intro: invoke_step_ok return_step_ok)
  have s5: "step_ok env ty 60 60 w r w'"
    if "await (updateProgress env 60) (\<lambda>u. await (invoke env Sqlmap tg) (\<lambda>s. return (ns @ ks @ s))) w = (r, w')"
    for ns ks w r w'
    using that
    by (rule await_step_ok [where a = 60 and b = 60 and c = 60])
       (auto intro: updateProgress_step_ok s6)
  have s4: "step_ok env ty 60 60 w r w'"
    if "await (invoke env Nikto tg) (\<lambda>ks. await (updateProgress env 60)
          (\<lambda>u. await (invoke env Sqlmap tg) (\<lambda>s. return (ns @ ks @ s)))) w = (r, w')"
    for ns w r w'
    using that
    by (rule await_step_ok [where a = 60 and b = 60 and c = 60])
       (auto intro: invoke_step_ok s5)
  have s3: "step_ok env ty 40 60 w r w'"
    if "await (updateProgress env 40) (\<lambda>u. await (invoke env Nikto tg) (\<lambda>ks. await (updateProgress env 60)
          (\<lambda>u. await (invoke env Sqlmap tg) (\<lambda>s. return (ns @ ks @ s))))) w = (r, w')"
    for ns w r w'
    using that
    by (rule await_step_ok [where a = 40 and b = 40 and c = 60])
       (auto intro: updateProgress_step_ok s4)
  have s2: "step_ok env ty 40 60 w r w'"
    if "await (invoke env Nmap tg) (\<lambda>ns. await (updateProgress env 40) (\<lambda>u. await (invoke env Nikto tg) (\<lambda>ks. await (updateProgress env 60)
          (\<lambda>u. await (invoke env Sqlmap tg) (\<lambda>s. return (ns @ ks @ s)))))) w = (r, w')"
    for w r w'
    using that
    by (rule await_step_ok [where a = 40 and b = 40 and c = 40])
       (auto intro: invoke_step_ok s3)
  from assms have "await (updateProgress env 20) (\<lambda>u. await (invoke env Nmap tg) (\<lambda>ns. await (updateProgress env 40) (\<lambda>u. await (invoke env Nikto tg) (\<lambda>ks. await (updateProgress env 60)
          (\<lambda>u. await (invoke env Sqlmap tg) (\<lambda>s. return (ns @ ks @ s))))))) w = (r, w')"
    by (simp add: dispatch_def)
  then show ?thesis
    by (rule await_step_ok [where a = 20 and b = 20 and c = 40])
       (auto intro: updateProgress_step_ok s2)
qed

lemma dispatch_step_ok:
  assumes "dispatch env tg ty w = (r, w')"
  shows "step_ok env ty 20 60 w r w'"
proof -
  consider (nmap) "ty = ''nmap''" | (nikto) "ty = ''nikto''" | (sqlmap) "ty = ''sqlmap''"
    | (zap) "ty = ''zap''" | (all) "ty = ''comprehensive''" | (other) "\<not> supported ty"
    by (auto simp add: supported_def)
  then show ?thesis
  proof cases
    case nmap with assms show ?thesis by (simp add: dispatch_def invoke_step_ok)
  next
    case nikto with assms show ?thesis by (simp add: dispatch_def invoke_step_ok)
  next
    case sqlmap with assms show ?thesis by (simp add: dispatch_def invoke_step_ok)
  next
    case zap with assms show ?thesis by (simp add: dispatch_def invoke_step_ok)
  next
    case all with assms show ?thesis by (simp add: dispatch_comprehensive_step_ok)
  next
    case other
    then have "dispatch env tg ty = throw (JsError (''Unsupported scan type: '' @ ty))"
      by (simp add: dispatch_def supported_def)
    with assms other show ?thesis by (simp add: throw_step_ok)
  qed
qed

lemma executeScan_step_ok:
  assumes "executeScan env sid tg ty w = (r, w')"
  shows "step_ok env ty 10 100 w r w'"
proof -
  have s5: "step_ok env ty 100 100 w r w'"
    if "await (updateProgress env 100) (\<lambda>u. return ps) w = (r, w')" for ps w r w'
    using that
    by (rule await_step_ok [where a = 100 and b = 100 and c = 100])
       (auto intro: updateProgress_step_ok return_step_ok)
  have s4: "step_ok env ty 100 100 w r w'"
    if "await (processResults env sid rs []) (\<lambda>ps. await (updateProgress env 100) (\<lambda>u. return ps)) w = (r, w')"
    for rs w r w'
    using that
    by (rule await_step_ok [where a = 100 and b = 100 and c = 100])
       (auto intro: processResults_step_ok s5)
  have s3: "step_ok env ty 80 100 w r w'"
    if "await (updateProgress env 80) (\<lambda>u. await (processResults env sid rs [])
          (\<lambda>ps. await (updateProgress env 100) (\<lambda>u. return ps))) w = (r, w')"
    for rs w r w'
    using that
    by (rule await_step_ok [where a = 80 and b = 80 and c = 100])
       (auto intro: updateProgress_step_ok s4)
  have s2: "step_ok env ty 20 100 w r w'"
    if "await (dispatch env tg ty) (\<lambda>rs. await (updateProgress env 80) (\<lambda>u. await (processResults env sid rs [])
          (\<lambda>ps. await (updateProgress env 100) (\<lambda>u. return ps)))) w = (r, w')"
    for w r w'
    using that
    by (rule await_step_ok [where a = 20 and b = 60 and c = 80])
       (auto intro: dispatch_step_ok s3)
  from assms show ?thesis
    unfolding executeScan_def
    by (rule await_step_ok [where a = 10 and b = 10 and c = 20])
       (auto intro: updateProgress_step_ok s2)
qed



lemma scanWorker_paths:
  assumes "scanWorker env d w = (res, w')"
  obtains
    (completed) ps w2 where
      "io_failure env (clock w) = None"
      "executeScan env (scanId d) (target d) (scanType d) (tick (snd (set_running (scanId d) w))) = (Inr ps, w2)"
      "io_failure env (clock w2) = None"
      "res = Inr \<lparr>success = True, vulnerabilities = length ps\<rparr>"
      "w' = tick (snd (set_complete (scanId d) w2))"
  | (failed) error w0 where
      "(\<exists>m. io_failure env (clock w) = Some m \<and> error = JsError m \<and> w0 = tick w)
       \<or> (io_failure env (clock w) = None
          \<and> executeScan env (scanId d) (target d) (scanType d) (tick (snd (set_running (scanId d) w))) = (Inl error, w0))
       \<or> (\<exists>ps w2 m. io_failure env (clock w) = None
          \<and> executeScan env (scanId d) (target d) (scanType d) (tick (snd (set_running (scanId d) w))) = (Inr ps, w2)
          \<and> io_failure env (clock w2) = Some m \<and> error = JsError m \<and> w0 = tick w2)"
      "(\<exists>m2. io_failure env (clock w0) = Some m2 \<and> res = Inl (JsError m2) \<and> w' = tick w0)
       \<or> (io_failure env (clock w0) = None \<and> res = Inl error
          \<and> w' = tick (snd (set_error (scanId d) (message error) w0)))"
proof -
  let ?body = "await (query env (set_running (scanId d))) (\<lambda>u.
         await (executeScan env (scanId d) (target d) (scanType d)) (\<lambda>scanResults.
         await (query env (set_complete (scanId d))) (\<lambda>u.
         return \<lparr>success = True, vulnerabilities = length scanResults\<rparr>)))"
  obtain r0 w0 where body: "?body w = (r0, w0)" by (cases "?body w")
  show thesis
  proof (cases r0)
    case (Inr hr)
    with body assms have res: "res = Inr hr" "w' = w0" by (simp_all add: scanWorker_def)
    from body show thesis
    proof (cases rule: awaitE)
      case (threw e) with Inr show thesis by simp
    next
      case (went u w1)
      note q1 = query_cases [OF went(1)]
      from went(2) show thesis
      proof (cases rule: awaitE)
        case (threw e) with Inr show thesis by simp
      next
        case w2: (went ps w2)
        from w2(2) show thesis
        proof (cases rule: awaitE)
          case (threw e) with Inr show thesis by simp
        next
          case w3: (went u3 w3)
          note q3 = query_cases [OF w3(1)]
          from q1 q3 w2(1) w3(2) Inr res show thesis
            by (intro completed [of ps w2]) (auto simp add: return_def)
        qed
      qed
    qed
  next
    case (Inl error)
    with body assms have catch: "await (query env (set_error (scanId d) (message error))) (\<lambda>u. throw error) w0 = (res, w')"
      by (simp add: scanWorker_def)
    have second: "(\<exists>m2. io_failure env (clock w0) = Some m2 \<and> res = Inl (JsError m2) \<and> w' = tick w0)
       \<or> (io_failure env (clock w0) = None \<and> res = Inl error
          \<and> w' = tick (snd (set_error (scanId d) (message error) w0)))"
      using catch
    proof (cases rule: awaitE)
      case (threw e)
      with query_cases [OF threw(1)] show ?thesis by auto
    next
      case (went u w1)
      with query_cases [OF went(1)] show ?thesis by (auto simp add: throw_def)
    qed
    have first: "(\<exists>m. io_failure env (clock w) = Some m \<and> error = JsError m \<and> w0 = tick w)
       \<or> (io_failure env (clock w) = None
          \<and> executeScan env (scanId d) (target d) (scanType d) (tick (snd (set_running (scanId d) w))) = (Inl error, w0))
       \<or> (\<exists>ps w2 m. io_failure env (clock w) = None
          \<and> executeScan env (scanId d) (target d) (scanType d) (tick (snd (set_running (scanId d) w))) = (Inr ps, w2)
          \<and> io_failure env (clock w2) = Some m \<and> error = JsError m \<and> w0 = tick w2)"
      using body
    proof (cases rule: awaitE)
      case (threw e)
      with query_cases [OF threw(1)] Inl show ?thesis by auto
    next
      case (went u w1)
      note q1 = query_cases [OF went(1)]
      from went(2) show ?thesis
      proof (cases rule: awaitE)
        case (threw e)
        with q1 Inl show ?thesis by auto
      next
        case w2: (went ps w2)
        from w2(2) show ?thesis
        proof (cases rule: awaitE)
          case (threw e)
          with query_cases [OF threw(1)] q1 w2(1) Inl show ?thesis by auto
        next
          case w3: (went u3 w3)
          with Inl show ?thesis by (simp add: return_def)
        qed
      qed
    qed
    from first second show thesis by (rule failed)
  qed
qed



lemma tick_simps [simp]:
  "scans (tick w) = scans w" "scan_results (tick w) = scan_results w"
  "next_result_id (tick w) = next_result_id w" "job_progress (tick w) = job_progress w"
  "events (tick w) = events w" "clock (tick w) = clock w + 1"
  by (simp_all add: tick_def)

lemma update_scan_simps [simp]:
  "scan_results (snd (update_scan sid f w)) = scan_results w"
  "next_result_id (snd (update_scan sid f w)) = next_result_id w"
  "job_progress (snd (update_scan sid f w)) = job_progress w"
  "clock (snd (update_scan sid f w)) = clock w"
  "progress_reports (events (snd (update_scan sid f w))) = progress_reports (events w)"
  "adapters_invoked (events (snd (update_scan sid f w))) = adapters_invoked (events w)"
  "scans (snd (update_scan sid f w)) = (case scans w sid of None \<Rightarrow> scans w | Some row \<Rightarrow> (scans w)(sid \<mapsto> f row))"
  "status_writes (events (snd (update_scan sid f w)))
     = status_writes (events w) @ (case scans w sid of None \<Rightarrow> [] | Some row \<Rightarrow> [status (f row)])"
  by (simp_all add: update_scan_def split: option.splits)

lemma reports_cong:
  assumes "reports lo hi a b"
    and "progress_reports (events a) = progress_reports (events w)" "job_progress a = job_progress w"
    and "progress_reports (events w') = progress_reports (events b)" "job_progress w' = job_progress b"
  shows "reports lo hi w w'"
proof -
  from assms(1) obtain ps where "progress_reports (events b) = progress_reports (events a) @ ps"
    "sorted ps" "\<forall>p\<in>set ps. lo \<le> p \<and> p \<le> hi"
    "job_progress b = (if ps = [] then job_progress a else last ps)"
    unfolding reports_def by blast
  with assms(2-) show ?thesis
    unfolding reports_def by (intro exI [of _ ps]) simp
qed

text \<open>What the body of the handler has done when it throws, and what the \<^verbatim>\<open>catch\<close> block
  adds.\<close>

lemma body_failed_effect:
  assumes "(\<exists>m. io_failure env (clock w) = Some m \<and> error = JsError m \<and> w0 = tick w)
       \<or> (io_failure env (clock w) = None
          \<and> executeScan env sid tg ty (tick (snd (set_running sid w))) = (Inl error, w0))
       \<or> (\<exists>ps w2 m. io_failure env (clock w) = None
          \<and> executeScan env sid tg ty (tick (snd (set_running sid w))) = (Inr ps, w2)
          \<and> io_failure env (clock w2) = Some m \<and> error = JsError m \<and> w0 = tick w2)"
  shows "prefix (scan_results w) (scan_results w0) \<and> reports 10 100 w w0 \<and> clock w < clock w0
    \<and> (\<exists>m. error = JsError m \<and> ((\<exists>n. io_failure env n = Some m)
            \<or> m = ''Unsupported scan type: '' @ ty \<and> \<not> supported ty))
    \<and> (\<exists>xs. status_writes (events w0) = status_writes (events w) @ xs
          \<and> (case scans w sid of
                None \<Rightarrow> xs = [] \<and> scans w0 = scans w
              | Some row \<Rightarrow>
                  (if io_failure env (clock w) = None
                   then xs = [St_running]
                        \<and> scans w0 = (scans w)(sid \<mapsto> row\<lparr>status := St_running, started_at := Some (clock w)\<rparr>)
                   else xs = [] \<and> scans w0 = scans w)))"
  using assms
proof (elim disjE exE conjE)
  fix m assume "io_failure env (clock w) = Some m" "error = JsError m" "w0 = tick w"
  then show ?thesis
    by (auto simp add: reports_none split: option.splits)
next
  let ?w1 = "tick (snd (set_running sid w))"
  assume ok: "io_failure env (clock w) = None" and ex: "executeScan env sid tg ty ?w1 = (Inl error, w0)"
  from executeScan_step_ok [OF ex] have q: "quiet ?w1 w0" and r: "reports 10 100 ?w1 w0"
    and e: "explained env ty w0 (Inl error :: exn + processed list)"
    by (simp_all add: step_ok_def)
  have "reports 10 100 w w0"
    using r by (rule reports_cong) (simp_all add: set_running_def)
  moreover from e have "\<exists>m. error = JsError m \<and> ((\<exists>n. io_failure env n = Some m)
            \<or> m = ''Unsupported scan type: '' @ ty \<and> \<not> supported ty)"
    by (auto simp add: explained_def)
  ultimately show ?thesis
    using q ok by (auto simp add: quiet_def set_running_def split: option.splits)
next
  let ?w1 = "tick (snd (set_running sid w))"
  fix ps w2 m
  assume ok: "io_failure env (clock w) = None" and ex: "executeScan env sid tg ty ?w1 = (Inr ps, w2)"
    and rest: "io_failure env (clock w2) = Some m" "error = JsError m" "w0 = tick w2"
  from executeScan_step_ok [OF ex] have q: "quiet ?w1 w2" and r: "reports 10 100 ?w1 w2"
    by (simp_all add: step_ok_def)
  have "reports 10 100 w w0"
    using r by (rule reports_cong) (simp_all add: set_running_def rest)
  then show ?thesis
    using q ok rest by (auto simp add: quiet_def set_running_def split: option.splits)
qed



lemma scanWorker_effect:
  assumes run: "scanWorker env d w = (res, w')"
  shows "prefix (scan_results w) (scan_results w') \<and> reports 10 100 w w' \<and> clock w < clock w'
    \<and> (\<forall>i. i \<noteq> scanId d \<longrightarrow> scans w' i = scans w i)
    \<and> (\<forall>e. res = Inl e \<longrightarrow>
          (\<exists>m. e = JsError m \<and> ((\<exists>n. io_failure env n = Some m)
             \<or> m = ''Unsupported scan type: '' @ scanType d \<and> \<not> supported (scanType d))))
    \<and> (case scans w (scanId d) of
          None \<Rightarrow> scans w' (scanId d) = None \<and> status_writes (events w') = status_writes (events w)
        | Some row \<Rightarrow>
            (\<exists>row' xs. scans w' (scanId d) = Some row'
               \<and> status_writes (events w') = status_writes (events w) @ xs
               \<and> (io_failure env (clock w) = None \<longrightarrow> xs \<noteq> [] \<and> hd xs = St_running)
               \<and> (case res of
                     Inr r \<Rightarrow> xs = [St_running, St_complete] \<and> status row' = St_complete
                              \<and> progress row' = 100
                   | Inl e \<Rightarrow> xs \<in> {[], [St_running], [St_error], [St_running, St_error]}
                              \<and> progress row' = progress row
                              \<and> (io_failure env (clock w' - 1) = None \<longrightarrow>
                                    status row' = St_error
                                  \<and> error_message row' = Some (message e)))))"
  using run
proof (cases rule: scanWorker_paths)
  case (completed ps w2)
  let ?w1 = "tick (snd (set_running (scanId d) w))"
  from executeScan_step_ok [OF completed(2)] have q: "quiet ?w1 w2" and r: "reports 10 100 ?w1 w2"
    by (simp_all add: step_ok_def)
  have "reports 10 100 w w'"
    using r by (rule reports_cong) (simp_all add: set_running_def set_complete_def completed(5))
  then show ?thesis
    using q completed(1,3,4,5)
    by (auto simp add: quiet_def set_running_def set_complete_def split: option.splits)
next
  case (failed error w0)
  from body_failed_effect [OF failed(1)] obtain m xs where b:
    "prefix (scan_results w) (scan_results w0)" "reports 10 100 w w0" "clock w < clock w0"
    "error = JsError m" "(\<exists>n. io_failure env n = Some m)
            \<or> m = ''Unsupported scan type: '' @ scanType d \<and> \<not> supported (scanType d)"
    "status_writes (events w0) = status_writes (events w) @ xs"
    "(case scans w (scanId d) of
                None \<Rightarrow> xs = [] \<and> scans w0 = scans w
              | Some row \<Rightarrow>
                  (if io_failure env (clock w) = None
                   then xs = [St_running]
                        \<and> scans w0 = (scans w)(scanId d \<mapsto> row\<lparr>status := St_running, started_at := Some (clock w)\<rparr>)
                   else xs = [] \<and> scans w0 = scans w))"
    by blast
  from failed(2) show ?thesis
  proof (elim disjE exE conjE)
    fix m2 assume c: "io_failure env (clock w0) = Some m2" "res = Inl (JsError m2)" "w' = tick w0"
    have "reports 10 100 w w'"
      using b(2) by (rule reports_cong) (simp_all add: c)
    then show ?thesis
      using b c by (auto split: option.splits if_splits)
  next
    assume c: "io_failure env (clock w0) = None" "res = Inl error"
      "w' = tick (snd (set_error (scanId d) (message error) w0))"
    have "reports 10 100 w w'"
      using b(2) by (rule reports_cong) (simp_all add: c set_error_def)
    then show ?thesis
      using b c by (auto simp add: set_error_def split: option.splits if_splits)
  qed
qed



lemma process_job_effect:
  assumes "process_job env opts j w = (j', w')"
  shows "data j' = data j \<and> prefix (scan_results w) (scan_results w') \<and> clock w < clock w'
    \<and> state j' \<in> {Completed, Failed}
    \<and> (\<forall>i. i \<noteq> scanId (data j) \<longrightarrow> scans w' i = scans w i)
    \<and> (case scans w (scanId (data j)) of
          None \<Rightarrow> scans w' (scanId (data j)) = None
                  \<and> status_writes (events w') = status_writes (events w)
        | Some row \<Rightarrow>
            (\<exists>row' xs. scans w' (scanId (data j)) = Some row'
               \<and> status_writes (events w') = status_writes (events w) @ xs
               \<and> set xs \<subseteq> {St_running, St_error, St_complete}
               \<and> St_complete \<notin> set (butlast xs)
               \<and> (St_complete \<in> set xs \<longrightarrow> state j' = Completed)
               \<and> (progress row' = progress row \<or> progress row' = 100)
               \<and> (state j' = Completed \<longrightarrow>
                     status row' = St_complete \<and> progress row' = 100 \<and> xs \<noteq> []
                   \<and> last xs = St_complete)))"
  using assms
proof (induction env opts j w arbitrary: j' w' rule: process_job.induct)
  case (1 env opts j w)
  obtain res w1 where h: "scanWorker env (data j) w = (res, w1)"
    by (cases "scanWorker env (data j) w")
  note eff = scanWorker_effect [OF h]
  show ?case
  proof (cases res)
    case (Inr r)
    with h "1.prems" have "j' = j\<lparr>state := Completed, returnvalue := Some r\<rparr>" "w' = w1"
      by (simp_all add: process_job.simps)
    with eff Inr show ?thesis
      by (auto split: option.splits)
  next
    case (Inl e)
    show ?thesis
    proof (cases "Suc (attemptsMade j) < attempts opts")
      case False
      with Inl h "1.prems" have "j' = j\<lparr>state := Failed, attemptsMade := Suc (attemptsMade j),
                   failedReason := Some (message e)\<rparr>" "w' = w1"
        by (simp_all add: process_job.simps)
      with eff Inl show ?thesis
        by (auto split: option.splits)
    next
      case True
      let ?j2 = "j\<lparr>state := Delayed, attemptsMade := Suc (attemptsMade j),
                     retry_delays := retry_delays j @ [backoff opts (Suc (attemptsMade j))]\<rparr>"
      from True Inl h "1.prems" have rec: "process_job env opts ?j2 w1 = (j', w')"
        by (simp add: process_job.simps [of env opts j w])
      note ih = "1.IH" [OF h [symmetric] Inl True rec]
      show ?thesis
      proof (cases "scans w (scanId (data j))")
        case None
        with eff ih show ?thesis by (auto split: option.splits)
      next
        case (Some row)
        with eff Inl obtain row1 xs1 where a:
          "scans w1 (scanId (data j)) = Some row1"
          "status_writes (events w1) = status_writes (events w) @ xs1"
          "xs1 \<in> {[], [St_running], [St_error], [St_running, St_error]}"
          "progress row1 = progress row"
          by auto
        with ih obtain row' xs2 where b:
          "scans w' (scanId (data j)) = Some row'"
          "status_writes (events w') = status_writes (events w1) @ xs2"
          "set xs2 \<subseteq> {St_running, St_error, St_complete}"
          "St_complete \<notin> set (butlast xs2)"
          "St_complete \<in> set xs2 \<longrightarrow> state j' = Completed"
          "progress row' = progress row1 \<or> progress row' = 100"
          "state j' = Completed \<longrightarrow>
                     status row' = St_complete \<and> progress row' = 100 \<and> xs2 \<noteq> []
                   \<and> last xs2 = St_complete"
          by auto
        have c: "St_complete \<notin> set xs1" "set xs1 \<subseteq> {St_running, St_error, St_complete}"
          using a(3) by auto
        have "St_complete \<notin> set (butlast (xs1 @ xs2))"
          using b(4) c(1) by (auto simp add: butlast_append dest: in_set_butlastD)
        moreover have "set (xs1 @ xs2) \<subseteq> {St_running, St_error, St_complete}"
          using b(3) c(2) by simp
        moreover have "St_complete \<in> set (xs1 @ xs2) \<longrightarrow> state j' = Completed"
          using b(5) c(1) by simp
        moreover have "state j' = Completed \<longrightarrow> xs1 @ xs2 \<noteq> [] \<and> last (xs1 @ xs2) = St_complete"
          using b(7) by simp
        moreover have "status_writes (events w') = status_writes (events w) @ (xs1 @ xs2)"
          using a(2) b(2) by simp
        ultimately have "\<exists>row' xs. scans w' (scanId (data j)) = Some row'
               \<and> status_writes (events w') = status_writes (events w) @ xs
               \<and> set xs \<subseteq> {St_running, St_error, St_complete}
               \<and> St_complete \<notin> set (butlast xs)
               \<and> (St_complete \<in> set xs \<longrightarrow> state j' = Completed)
               \<and> (progress row' = progress row \<or> progress row' = 100)
               \<and> (state j' = Completed \<longrightarrow>
                     status row' = St_complete \<and> progress row' = 100 \<and> xs \<noteq> []
                   \<and> last xs = St_complete)"
          using b(1,6,7) a(4) by (intro exI [of _ row'] exI [of _ "xs1 @ xs2"]) simp
        moreover from eff ih have "data j' = data j" "prefix (scan_results w) (scan_results w')"
          "clock w < clock w'" "state j' \<in> {Completed, Failed}"
          "\<forall>i. i \<noteq> scanId (data j) \<longrightarrow> scans w' i = scans w i"
          by auto
        ultimately show ?thesis using Some by simp
      qed
    qed
  qed
qed



lemma process_job_failed:
  assumes "process_job env opts j w = (j', w')" and "state j' = Failed"
  shows "attemptsMade j' = max (attempts opts) (Suc (attemptsMade j))
    \<and> retry_delays j' = retry_delays j @ map (backoff opts) [Suc (attemptsMade j) ..< attempts opts]
    \<and> (\<exists>e w0. scanWorker env (data j) w0 = (Inl e, w') \<and> failedReason j' = Some (message e)
          \<and> (\<forall>row. scans w (scanId (data j)) = Some row \<longrightarrow> (\<exists>row0. scans w0 (scanId (data j)) = Some row0)))"
  using assms
proof (induction env opts j w arbitrary: j' w' rule: process_job.induct)
  case (1 env opts j w)
  obtain res w1 where h: "scanWorker env (data j) w = (res, w1)"
    by (cases "scanWorker env (data j) w")
  note eff = scanWorker_effect [OF h]
  show ?case
  proof (cases res)
    case (Inr r)
    with h "1.prems" show ?thesis by (auto simp add: process_job.simps)
  next
    case (Inl e)
    show ?thesis
    proof (cases "Suc (attemptsMade j) < attempts opts")
      case False
      with Inl h "1.prems" have "j' = j\<lparr>state := Failed, attemptsMade := Suc (attemptsMade j),
                   failedReason := Some (message e)\<rparr>" "w' = w1"
        by (simp_all add: process_job.simps)
      with False h Inl show ?thesis
        by (intro conjI exI [of _ e] exI [of _ w]) auto
    next
      case True
      let ?j2 = "j\<lparr>state := Delayed, attemptsMade := Suc (attemptsMade j),
                     retry_delays := retry_delays j @ [backoff opts (Suc (attemptsMade j))]\<rparr>"
      from True Inl h "1.prems" have rec: "process_job env opts ?j2 w1 = (j', w')"
        by (simp add: process_job.simps [of env opts j w])
      note ih = "1.IH" [OF h [symmetric] Inl True rec "1.prems"(2)]
      from ih obtain e' w0 where l: "scanWorker env (data j) w0 = (Inl e', w')"
        "failedReason j' = Some (message e')"
        "\<forall>row. scans w1 (scanId (data j)) = Some row \<longrightarrow> (\<exists>row0. scans w0 (scanId (data j)) = Some row0)"
        by auto
      have keep: "\<forall>row. scans w (scanId (data j)) = Some row \<longrightarrow> (\<exists>row0. scans w0 (scanId (data j)) = Some row0)"
        using eff l(3) by (auto split: option.splits)
      have "attemptsMade j' = max (attempts opts) (Suc (attemptsMade j))"
        using ih True by simp
      moreover have "retry_delays j' = retry_delays j @ map (backoff opts) [Suc (attemptsMade j) ..< attempts opts]"
        using ih True by (simp add: upt_conv_Cons)
      ultimately show ?thesis using l(1,2) keep by blast
    qed
  qed
qed

lemma analyze_await:
  "await (\<lambda>w. (analyzeVulnerability r, w)) f w = f (analysis_of r) w"
  by (simp add: await_def analyzeVulnerability_Inr)

lemmas run_defs =
  scanWorker_def executeScan_def dispatch_def await_def return_def throw_def query_def
  updateProgress_def invoke_eq set_running_def set_complete_def set_error_def update_scan_def
  insert_result_def analyzeVulnerability_Inr Let_def

lemma zap_findings: "findings_of env Zap n tg = getSimulatedZapResults tg"
  by (simp add: findings_of_def runZapScan_def try_catch_def)

lemma process_job_completed:
  "scanWorker env (data j) w = (Inr r, w1) \<Longrightarrow>
   process_job env opts j w = (j\<lparr>state := Completed, returnvalue := Some r\<rparr>, w1)"
  by (simp add: process_job.simps)

lemma process_job_retry:
  "scanWorker env (data j) w = (Inl e, w1) \<Longrightarrow> Suc (attemptsMade j) < attempts opts \<Longrightarrow>
   process_job env opts j w
     = process_job env opts
         (j\<lparr>state := Delayed, attemptsMade := Suc (attemptsMade j),
            retry_delays := retry_delays j @ [backoff opts (Suc (attemptsMade j))]\<rparr>) w1"
  by (simp add: process_job.simps [of env opts j w])

lemma process_job_exhausted:
  "scanWorker env (data j) w = (Inl e, w1) \<Longrightarrow> \<not> Suc (attemptsMade j) < attempts opts \<Longrightarrow>
   process_job env opts j w
     = (j\<lparr>state := Failed, attemptsMade := Suc (attemptsMade j),
           failedReason := Some (message e)\<rparr>, w1)"
  by (simp add: process_job.simps)

lemma retry_run:
  "\<exists>j' w'. process_job (env_failing_at [4]) defaultJobOptions (addScanJob zap_job) world0 = (j', w')
     \<and> state j' = Completed \<and> attemptsMade j' = 1 \<and> retry_delays j' = [2000]
     \<and> events w' = [StatusWritten 1 St_running, ProgressReported 10, AdapterInvoked Zap,
          ProgressReported 80, StatusWritten 1 St_error, StatusWritten 1 St_running,
          ProgressReported 10, AdapterInvoked Zap, ProgressReported 80,
          ResultStored (result_row_of 0 1 (hd (getSimulatedZapResults ''example.com''))
                          (analysis_of (hd (getSimulatedZapResults ''example.com'')))),
          ProgressReported 100, StatusWritten 1 St_complete]
     \<and> (\<exists>row. scans w' 1 = Some row \<and> status row = St_complete \<and> progress row = 100
           \<and> error_message row = Some ''connection lost'')"
proof -
  let ?env = "env_failing_at [4]"
  let ?j0 = "addScanJob zap_job"
  let ?j1 = "?j0\<lparr>state := Delayed, attemptsMade := Suc (attemptsMade ?j0),
            retry_delays := retry_delays ?j0 @ [backoff defaultJobOptions (Suc (attemptsMade ?j0))]\<rparr>"
  obtain w1 where a1: "scanWorker ?env (data ?j0) world0 = (Inl (JsError ''connection lost''), w1)"
    and w1: "w1 = \<lparr>scans = [1 \<mapsto> new_scan\<lparr>status := St_error, error_message := Some ''connection lost'', started_at := Some 0, completed_at := Some 5\<rparr>],
       scan_results = [], next_result_id = 0, job_progress = 80, clock = 6,
       events = [StatusWritten 1 St_running, ProgressReported 10, AdapterInvoked Zap,
          ProgressReported 80, StatusWritten 1 St_error]\<rparr>"
    by (simp add: run_defs addScanJob_def env_failing_at_def zap_job_def world0_def zap_findings getSimulatedZapResults_def new_scan_def tick_def del: One_nat_def)
  obtain r2 w2 where a2: "scanWorker ?env (data ?j1) w1 = (Inr r2, w2)"
    and w2: "events w2 = [StatusWritten 1 St_running, ProgressReported 10, AdapterInvoked Zap,
          ProgressReported 80, StatusWritten 1 St_error, StatusWritten 1 St_running,
          ProgressReported 10, AdapterInvoked Zap, ProgressReported 80,
          ResultStored (result_row_of 0 1 (hd (getSimulatedZapResults ''example.com''))
                          (analysis_of (hd (getSimulatedZapResults ''example.com'')))),
          ProgressReported 100, StatusWritten 1 St_complete]"
      "\<exists>row. scans w2 1 = Some row \<and> status row = St_complete \<and> progress row = 100
           \<and> error_message row = Some ''connection lost''"
    unfolding w1
    by (simp add: run_defs addScanJob_def env_failing_at_def zap_job_def zap_findings getSimulatedZapResults_def new_scan_def tick_def del: One_nat_def)
  have more: "Suc (attemptsMade ?j0) < attempts defaultJobOptions"
    by (simp add: addScanJob_def defaultJobOptions_def)
  have "process_job ?env defaultJobOptions ?j0 world0
        = (?j1\<lparr>state := Completed, returnvalue := Some r2\<rparr>, w2)"
    unfolding process_job_retry [OF a1 more] by (rule process_job_completed [OF a2])
  then show ?thesis using w2
    by (simp add: addScanJob_def defaultJobOptions_def backoff_def)
qed

section \<open>Concrete runs and the adapters\<close>



lemma failed_command:
  assumes "tool_failed p"
  shows "\<exists>e. executeCommand n p = Inl e"
  using assms by (cases p) (auto simp add: executeCommand_def)

lemma failed_tool_simulated:
  assumes "tool_failed (proc tio)"
  shows "run_adapter t ps tio tg = Inr (getSimulatedResults t tg)"
proof (cases t)
  case Nmap
  from failed_command [OF assms, of 300000] obtain e where "executeCommand 300000 (proc tio) = Inl e" ..
  with Nmap show ?thesis by (simp add: runNmapScan_def try_catch_def)
next
  case Nikto
  from failed_command [OF assms, of 600000] obtain e where "executeCommand 600000 (proc tio) = Inl e" ..
  with Nikto show ?thesis by (simp add: runNiktoScan_def try_catch_def)
next
  case Sqlmap
  from failed_command [OF assms, of 900000] obtain e where "executeCommand 900000 (proc tio) = Inl e" ..
  with Sqlmap show ?thesis by (simp add: runSqlmapScan_def try_catch_def split: sum.splits)
next
  case Zap
  then show ?thesis by (simp add: runZapScan_def try_catch_def)
qed

lemma failing_run:
  "\<exists>j' w'. process_job (env_failing_at [4, 10, 16]) defaultJobOptions (addScanJob comprehensive_job) world0 = (j', w')
     \<and> state j' = Failed \<and> attemptsMade j' = 3 \<and> retry_delays j' = [2000, 4000]
     \<and> failedReason j' = Some ''connection lost''
     \<and> events w' = [StatusWritten 1 St_running, ProgressReported 10, ProgressReported 20,
          AdapterInvoked Nmap, StatusWritten 1 St_error,
          StatusWritten 1 St_running, ProgressReported 10, ProgressReported 20,
          AdapterInvoked Nmap, StatusWritten 1 St_error,
          StatusWritten 1 St_running, ProgressReported 10, ProgressReported 20,
          AdapterInvoked Nmap, StatusWritten 1 St_error]
     \<and> scan_results w' = [] \<and> clock w' = 18
     \<and> (\<exists>row. scans w' 1 = Some row \<and> status row = St_error \<and> progress row = 0
           \<and> error_message row = Some ''connection lost'')"
proof -
  let ?env = "env_failing_at [4, 10, 16]"
  let ?j0 = "addScanJob comprehensive_job"
  let ?j1 = "?j0\<lparr>state := Delayed, attemptsMade := Suc (attemptsMade ?j0),
            retry_delays := retry_delays ?j0 @ [backoff defaultJobOptions (Suc (attemptsMade ?j0))]\<rparr>"
  let ?j2 = "?j1\<lparr>state := Delayed, attemptsMade := Suc (attemptsMade ?j1),
            retry_delays := retry_delays ?j1 @ [backoff defaultJobOptions (Suc (attemptsMade ?j1))]\<rparr>"
  let ?evs = "[StatusWritten 1 St_running, ProgressReported 10, ProgressReported 20,
          AdapterInvoked Nmap, StatusWritten 1 St_error]"
  note defs = run_defs addScanJob_def env_failing_at_def comprehensive_job_def new_scan_def tick_def
  obtain w1 where a1: "scanWorker ?env (data ?j0) world0 = (Inl (JsError ''connection lost''), w1)"
    and w1: "w1 = \<lparr>scans = [1 \<mapsto> new_scan\<lparr>status := St_error, error_message := Some ''connection lost'', started_at := Some 0, completed_at := Some 5\<rparr>],
       scan_results = [], next_result_id = 0, job_progress = 20, clock = 6, events = ?evs\<rparr>"
    by (simp add: defs world0_def del: One_nat_def)
  obtain w2 where a2: "scanWorker ?env (data ?j1) w1 = (Inl (JsError ''connection lost''), w2)"
    and w2: "w2 = \<lparr>scans = [1 \<mapsto> new_scan\<lparr>status := St_error, error_message := Some ''connection lost'', started_at := Some 6, completed_at := Some 11\<rparr>],
       scan_results = [], next_result_id = 0, job_progress = 20, clock = 12, events = ?evs @ ?evs\<rparr>"
    unfolding w1 by (simp add: defs del: One_nat_def)
  obtain w3 where a3: "scanWorker ?env (data ?j2) w2 = (Inl (JsError ''connection lost''), w3)"
    and w3: "w3 = \<lparr>scans = [1 \<mapsto> new_scan\<lparr>status := St_error, error_message := Some ''connection lost'', started_at := Some 12, completed_at := Some 17\<rparr>],
       scan_results = [], next_result_id = 0, job_progress = 20, clock = 18, events = ?evs @ ?evs @ ?evs\<rparr>"
    unfolding w2 by (simp add: defs del: One_nat_def)
  have m1: "Suc (attemptsMade ?j0) < attempts defaultJobOptions"
    and m2: "Suc (attemptsMade ?j1) < attempts defaultJobOptions"
    and m3: "\<not> Suc (attemptsMade ?j2) < attempts defaultJobOptions"
    by (simp_all add: addScanJob_def defaultJobOptions_def)
  have "process_job ?env defaultJobOptions ?j0 world0
        = (?j2\<lparr>state := Failed, attemptsMade := Suc (attemptsMade ?j2),
           failedReason := Some (message (JsError ''connection lost''))\<rparr>, w3)"
    unfolding process_job_retry [OF a1 m1] process_job_retry [OF a2 m2]
    by (rule process_job_exhausted [OF a3 m3])
  then show ?thesis unfolding w3
    by (simp add: addScanJob_def defaultJobOptions_def backoff_def new_scan_def)
qed

section \<open>The combined scan, adapter failures, classification failures\<close>



lemma rows_for_vulnerability_type:
  "map row_vulnerability_type (rows_for n sid rs) = map vulnerability_type rs"
  by (induction rs arbitrary: n) (simp_all add: result_row_of_def)

lemma scanWorker_comprehensive_ok:
  assumes nf: "no_failure env" and ty: "scanType d = ''comprehensive''"
    and row: "scans w (scanId d) = Some row"
  shows "\<exists>n w'. scanWorker env d w = (Inr \<lparr>success = True, vulnerabilities = n\<rparr>, w')
         \<and> adapters_invoked (events w') = adapters_invoked (events w) @ [Nmap, Nikto, Sqlmap]
         \<and> progress_reports (events w') = progress_reports (events w) @ [10, 20, 40, 60, 80, 100]
         \<and> scan_results w' = scan_results w @ rows_for (next_result_id w) (scanId d)
              (findings_of env Nmap (clock w + 3) (target d) @ findings_of env Nikto (clock w + 5) (target d)
               @ findings_of env Sqlmap (clock w + 7) (target d))"
proof -
  let ?w1 = "tick (snd (set_running (scanId d) w))"
  obtain ps w2 where e: "executeScan env (scanId d) (target d) ''comprehensive'' ?w1 = (Inr ps, w2)"
    "scan_results w2 = scan_results ?w1 @ rows_for (next_result_id ?w1) (scanId d)
              (findings_of env Nmap (clock ?w1 + 2) (target d) @ findings_of env Nikto (clock ?w1 + 4) (target d)
               @ findings_of env Sqlmap (clock ?w1 + 6) (target d))"
    "progress_reports (events w2) = progress_reports (events ?w1) @ [10, 20, 40, 60, 80, 100]"
    "adapters_invoked (events w2) = adapters_invoked (events ?w1) @ [Nmap, Nikto, Sqlmap]"
    using executeScan_comprehensive_ok [OF nf, of "scanId d" "target d" ?w1] by blast
  have c: "clock ?w1 + 2 = clock w + 3" "clock ?w1 + 4 = clock w + 5" "clock ?w1 + 6 = clock w + 7"
    by (simp_all add: set_running_def)
  have "scanWorker env d w = (Inr \<lparr>success = True, vulnerabilities = length ps\<rparr>,
          tick (snd (set_complete (scanId d) w2)))"
    by (simp add: scanWorker_def await_def return_def query_ok [OF nf] e(1) ty)
  with e(2-) show ?thesis
    unfolding c by (simp add: set_running_def set_complete_def)
qed

lemma env_ok_findings: "findings_of env_ok t n tg = getSimulatedResults t tg"
  by (simp add: findings_of_def failed_tool_simulated env_ok_def tool_timeout_def)

lemma no_failure_env_ok: "no_failure env_ok"
  by (simp add: no_failure_def env_ok_def)

text \<open>
  Claim C2: a combined scan invokes all four adapters (port scanner, web vulnerability
  scanner, SQL-injection tester, web app scanner) in a fixed order and its raw finding list
  is the concatenation of the four results. The \<^verbatim>\<open>comprehensive\<close> case of \<^verbatim>\<open>executeScan\<close>
  invokes Nmap, Nikto and SQLMap, in that order, and concatenates their three results; the
  ZAP adapter is not invoked. On the scan of \<^verbatim>\<open>example.com\<close> below, the adapters invoked
  are these three and no stored row is the cross-site-scripting finding that the ZAP
  adapter returns.
\<close>

theorem comprehensive_scan_skips_zap:
  "adapters_invoked (events (snd (scanWorker env_ok comprehensive_job world0))) = [Nmap, Nikto, Sqlmap]
   \<and> Zap \<notin> set (adapters_invoked (events (snd (scanWorker env_ok comprehensive_job world0))))
   \<and> map row_vulnerability_type (scan_results (snd (scanWorker env_ok comprehensive_job world0)))
       = map vulnerability_type
           (getSimulatedNmapResults ''example.com'' @ getSimulatedNiktoResults ''example.com''
            @ getSimulatedSqlmapResults ''example.com'')
   \<and> map vulnerability_type (getSimulatedZapResults ''example.com'') = [JString ''XSS'']
   \<and> JString ''XSS'' \<notin> set (map row_vulnerability_type
         (scan_results (snd (scanWorker env_ok comprehensive_job world0))))"
proof -
  have ty: "scanType comprehensive_job = ''comprehensive''" and row: "scans world0 (scanId comprehensive_job) = Some new_scan"
    by (simp_all add: comprehensive_job_def world0_def)
  from scanWorker_comprehensive_ok [OF no_failure_env_ok ty row]
  obtain n w' where r: "scanWorker env_ok comprehensive_job world0 = (Inr \<lparr>success = True, vulnerabilities = n\<rparr>, w')"
    "adapters_invoked (events w') = adapters_invoked (events world0) @ [Nmap, Nikto, Sqlmap]"
    "scan_results w' = scan_results world0 @ rows_for (next_result_id world0) (scanId comprehensive_job)
              (findings_of env_ok Nmap (clock world0 + 3) (target comprehensive_job)
               @ findings_of env_ok Nikto (clock world0 + 5) (target comprehensive_job)
               @ findings_of env_ok Sqlmap (clock world0 + 7) (target comprehensive_job))"
    by blast
  have tg: "target comprehensive_job = ''example.com''" by (simp add: comprehensive_job_def)
  have a: "adapters_invoked (events (snd (scanWorker env_ok comprehensive_job world0))) = [Nmap, Nikto, Sqlmap]"
    using r(1,2) by (simp add: world0_def)
  have b: "map row_vulnerability_type (scan_results (snd (scanWorker env_ok comprehensive_job world0)))
       = map vulnerability_type
           (getSimulatedNmapResults ''example.com'' @ getSimulatedNiktoResults ''example.com''
            @ getSimulatedSqlmapResults ''example.com'')"
    using r(1,3) unfolding env_ok_findings tg
    by (simp add: world0_def rows_for_vulnerability_type del: rows_for.simps)
  have c: "map vulnerability_type (getSimulatedZapResults ''example.com'') = [JString ''XSS'']"
    by (simp add: getSimulatedZapResults_def no_finding_def)
  have d: "JString ''XSS'' \<notin> set (map row_vulnerability_type
         (scan_results (snd (scanWorker env_ok comprehensive_job world0))))"
    unfolding b
    by (simp add: getSimulatedNmapResults_def getSimulatedNiktoResults_def
        getSimulatedSqlmapResults_def no_finding_def)
  from a b c d show ?thesis by simp
qed



text \<open>
  Claim C8. \<open>analyzeVulnerability\<close> never throws. When a step of the analysis throws, it
  returns the fallback analysis, with level info, score 0.0 and confidence 0.3; and the
  loop over the findings of a scan is not aborted by it: when the store does not fail, the
  loop ends normally with one row stored for every finding, the fallback analysis in the
  rows of the findings whose analysis threw.
\<close>

theorem classification_never_throws:
  "(\<exists>a. analyzeVulnerability r = Inr a)
   \<and> (\<forall>e. performAnalysis r = Inl e \<longrightarrow>
         analyzeVulnerability r = Inr (getFallbackAnalysis r)
       \<and> analysis_of r = getFallbackAnalysis r
       \<and> an_risk_level (getFallbackAnalysis r) = Info
       \<and> an_cvss_score (getFallbackAnalysis r) = 0
       \<and> an_confidence_score (getFallbackAnalysis r) = 3 / 10)
   \<and> (no_failure env \<longrightarrow>
         (\<exists>ps w'. processResults env sid rs [] w = (Inr ps, w') \<and> length ps = length rs
            \<and> scan_results w' = scan_results w @ rows_for (next_result_id w) sid rs))"
proof (intro conjI allI impI)
  show "\<exists>a. analyzeVulnerability r = Inr a"
    using analyzeVulnerability_Inr by blast
next
  fix e assume "performAnalysis r = Inl e"
  then show "analyzeVulnerability r = Inr (getFallbackAnalysis r)"
    and "analysis_of r = getFallbackAnalysis r"
    by (simp_all add: analyzeVulnerability_def try_catch_def analysis_of_def)
next
  show "an_risk_level (getFallbackAnalysis r) = Info" "an_cvss_score (getFallbackAnalysis r) = 0"
    "an_confidence_score (getFallbackAnalysis r) = 3 / 10"
    by (simp_all add: getFallbackAnalysis_def)
next
  assume "no_failure env"
  from processResults_ok [OF this, of sid rs "[]" w]
  show "\<exists>ps w'. processResults env sid rs [] w = (Inr ps, w') \<and> length ps = length rs
            \<and> scan_results w' = scan_results w @ rows_for (next_result_id w) sid rs"
    by auto
qed

lemma odd_finding_throws:
  "performAnalysis odd_finding = Inl (TypeError ''toLowerCase is not a function'')"
  by (simp add: performAnalysis_def identifyVulnerabilityPattern_def or_else_def odd_finding_def
      no_finding_def)

theorem classification_never_throws_witness:
  "performAnalysis odd_finding = Inl (TypeError ''toLowerCase is not a function'')
   \<and> no_failure env_ok
   \<and> analyzeVulnerability odd_finding = Inr (getFallbackAnalysis odd_finding)
   \<and> an_risk_level (getFallbackAnalysis odd_finding) = Info
   \<and> an_cvss_score (getFallbackAnalysis odd_finding) = 0
   \<and> an_confidence_score (getFallbackAnalysis odd_finding) = 3 / 10
   \<and> (\<exists>ps w'. processResults env_ok 1 [odd_finding, ssh_finding] [] world0 = (Inr ps, w')
         \<and> length ps = length [odd_finding, ssh_finding]
         \<and> scan_results w' = scan_results world0
              @ rows_for (next_result_id world0) 1 [odd_finding, ssh_finding])"
  using classification_never_throws [of odd_finding env_ok 1 "[odd_finding, ssh_finding]" world0]
    odd_finding_throws no_failure_env_ok
  by blast

section \<open>Status and progress over the attempts of a job\<close>



lemma zap_first_attempt:
  "\<exists>w1 row1. scanWorker (env_failing_at [4]) zap_job world0 = (Inl (JsError ''connection lost''), w1)
     \<and> clock w1 = 6 \<and> scans w1 1 = Some row1 \<and> status row1 = St_error
     \<and> error_message row1 = Some ''connection lost''"
  by (simp add: run_defs env_failing_at_def zap_job_def world0_def zap_findings
      getSimulatedZapResults_def new_scan_def tick_def del: One_nat_def)

lemma comprehensive_first_attempt:
  "\<exists>w1 row1. scanWorker (env_failing_at [4, 10, 16]) comprehensive_job world0
       = (Inl (JsError ''connection lost''), w1)
     \<and> clock w1 = 6 \<and> scans w1 1 = Some row1 \<and> status row1 = St_error
     \<and> error_message row1 = Some ''connection lost''"
  by (simp add: run_defs env_failing_at_def comprehensive_job_def world0_def new_scan_def tick_def
      del: One_nat_def)

text \<open>
  Claim C1 says that a terminal status (complete, error, cancelled) is never changed again,
  and that a scan set to error by a failed attempt is never set back to running by a retry.
  On the code this fails: a zap scan whose first attempt fails while storing its finding
  (the operation at tick 4) is retried by the queue, and the status values written are
  running, error, running, complete.
\<close>

theorem terminal_status_left_on_retry:
  "status_writes (events (snd (process_job (env_failing_at [4]) defaultJobOptions
       (addScanJob zap_job) world0)))
     = [St_running, St_error, St_running, St_complete]
   \<and> \<not> stays_terminal (status_writes (events (snd (process_job (env_failing_at [4])
          defaultJobOptions (addScanJob zap_job) world0))))"
proof -
  from retry_run obtain j' w' where
    "process_job (env_failing_at [4]) defaultJobOptions (addScanJob zap_job) world0 = (j', w')"
    "events w' = [StatusWritten 1 St_running, ProgressReported 10, AdapterInvoked Zap,
          ProgressReported 80, StatusWritten 1 St_error, StatusWritten 1 St_running,
          ProgressReported 10, AdapterInvoked Zap, ProgressReported 80,
          ResultStored (result_row_of 0 1 (hd (getSimulatedZapResults ''example.com''))
                          (analysis_of (hd (getSimulatedZapResults ''example.com'')))),
          ProgressReported 100, StatusWritten 1 St_complete]"
    by blast
  then show ?thesis by simp
qed

text \<open>
  Claim C1 as amended. Among the status values that the attempts of a job write for its
  scan, complete can only be the last one (a job that completed is not run again), and
  cancelled and pending are never written. Status error is not final while the job has
  attempts left: every attempt whose first update reaches the store, a retry included,
  first writes running, whatever the status of the scan is.
\<close>

theorem complete_is_final_error_is_not:
  assumes job: "process_job env opts j v = (j', v')" and vrow: "scans v (scanId (data j)) = Some vrow"
    and attempt: "scanWorker env d w = (res, w')" and row: "scans w (scanId d) = Some row"
    and ok: "io_failure env (clock w) = None"
  shows "(\<exists>xs. status_writes (events v') = status_writes (events v) @ xs
            \<and> St_complete \<notin> set (butlast xs) \<and> St_cancelled \<notin> set xs \<and> St_pending \<notin> set xs)
       \<and> (\<exists>xs. status_writes (events w') = status_writes (events w) @ St_running # xs)"
proof
  from process_job_effect [OF job] vrow obtain xs where
    "status_writes (events v') = status_writes (events v) @ xs"
    "set xs \<subseteq> {St_running, St_error, St_complete}" "St_complete \<notin> set (butlast xs)"
    by auto
  then show "\<exists>xs. status_writes (events v') = status_writes (events v) @ xs
            \<and> St_complete \<notin> set (butlast xs) \<and> St_cancelled \<notin> set xs \<and> St_pending \<notin> set xs"
    by (intro exI [of _ xs]) auto
next
  from scanWorker_effect [OF attempt] row ok obtain xs where
    "status_writes (events w') = status_writes (events w) @ xs" "xs \<noteq> []" "hd xs = St_running"
    by auto
  then show "\<exists>xs. status_writes (events w') = status_writes (events w) @ St_running # xs"
    by (cases xs) auto
qed

theorem complete_is_final_error_is_not_witness:
  "map_option status (scans (snd (scanWorker (env_failing_at [4]) zap_job world0)) (scanId zap_job))
     = Some St_error
   \<and> io_failure (env_failing_at [4]) (clock (snd (scanWorker (env_failing_at [4]) zap_job world0))) = None
   \<and> (\<exists>xs. status_writes (events (snd (scanWorker (env_failing_at [4]) zap_job
               (snd (scanWorker (env_failing_at [4]) zap_job world0)))))
          = status_writes (events (snd (scanWorker (env_failing_at [4]) zap_job world0)))
            @ St_running # xs)
   \<and> (\<exists>xs. status_writes (events (snd (process_job (env_failing_at [4]) defaultJobOptions
                (addScanJob zap_job) world0)))
          = status_writes (events world0) @ xs
        \<and> St_complete \<notin> set (butlast xs) \<and> St_cancelled \<notin> set xs \<and> St_pending \<notin> set xs)"
proof -
  let ?E = "env_failing_at [4]"
  let ?W1 = "snd (scanWorker ?E zap_job world0)"
  from zap_first_attempt obtain w1 row1 where f:
    "scanWorker ?E zap_job world0 = (Inl (JsError ''connection lost''), w1)"
    "clock w1 = 6" "scans w1 1 = Some row1" "status row1 = St_error"
    by blast
  have h1: "process_job ?E defaultJobOptions (addScanJob zap_job) world0
      = (fst (process_job ?E defaultJobOptions (addScanJob zap_job) world0),
         snd (process_job ?E defaultJobOptions (addScanJob zap_job) world0))"
    by simp
  have h2: "scans world0 (scanId (data (addScanJob zap_job))) = Some new_scan"
    by (simp add: world0_def addScanJob_def zap_job_def)
  have h3: "scanWorker ?E zap_job ?W1 = (fst (scanWorker ?E zap_job ?W1), snd (scanWorker ?E zap_job ?W1))"
    by simp
  have h4: "scans ?W1 (scanId zap_job) = Some row1"
    using f(1,3) by (simp add: zap_job_def)
  have h5: "io_failure ?E (clock ?W1) = None"
    using f(1,2) by (simp add: env_failing_at_def)
  from complete_is_final_error_is_not [OF h1 h2 h3 h4 h5] h4 h5 f(4)
  show ?thesis by simp
qed

text \<open>
  Claim C9 says that the progress value of a scan never decreases while its status is not
  terminal. On the code this fails across a retry: in the run of Claim C1 the job reports 10
  and 80, the attempt fails, the retry sets the status to running and reports 10 again.
\<close>

theorem progress_restarts_on_retry:
  "progress_reports (events (snd (process_job (env_failing_at [4]) defaultJobOptions
       (addScanJob zap_job) world0)))
     = [10, 80, 10, 80, 100]
   \<and> \<not> never_decreases_while_active 1 St_pending 0
         (events (snd (process_job (env_failing_at [4]) defaultJobOptions
            (addScanJob zap_job) world0)))"
proof -
  from retry_run obtain j' w' where
    "process_job (env_failing_at [4]) defaultJobOptions (addScanJob zap_job) world0 = (j', w')"
    "events w' = [StatusWritten 1 St_running, ProgressReported 10, AdapterInvoked Zap,
          ProgressReported 80, StatusWritten 1 St_error, StatusWritten 1 St_running,
          ProgressReported 10, AdapterInvoked Zap, ProgressReported 80,
          ResultStored (result_row_of 0 1 (hd (getSimulatedZapResults ''example.com''))
                          (analysis_of (hd (getSimulatedZapResults ''example.com'')))),
          ProgressReported 100, StatusWritten 1 St_complete]"
    by blast
  then show ?thesis by simp
qed

text \<open>
  Claim C9 as amended. For a combined scan in which every stage succeeds the job reports
  the progress values 10, 20, 40, 60, 80, 100, so it takes the values 20, 40, 60, 80, 100
  in that order. Within one attempt of a job the reported progress never decreases,
  whatever fails; and the progress column of the scan row (at most 100 at the start) never
  decreases over all the attempts of a job.
\<close>

theorem progress_within_one_attempt:
  assumes all: "no_failure env"
    and attempt: "scanWorker env' d w = (res, w')"
    and job: "process_job env' opts j v = (j', v')" and vrow: "scans v (scanId (data j)) = Some vrow"
    and bound: "progress vrow \<le> 100"
  shows "(\<exists>ps u. executeScan env sid tg ''comprehensive'' u0 = (Inr ps, u)
            \<and> progress_reports (events u) = progress_reports (events u0) @ [10, 20, 40, 60, 80, 100]
            \<and> subseq [20, 40, 60, 80, 100]
                 (drop (length (progress_reports (events u0))) (progress_reports (events u))))
       \<and> (\<exists>ps. progress_reports (events w') = progress_reports (events w) @ ps \<and> sorted ps)
       \<and> (\<exists>row'. scans v' (scanId (data j)) = Some row' \<and> progress vrow \<le> progress row')"
proof (intro conjI)
  from executeScan_comprehensive_ok [OF all, of sid tg u0] obtain ps u where
    "executeScan env sid tg ''comprehensive'' u0 = (Inr ps, u)"
    "progress_reports (events u) = progress_reports (events u0) @ [10, 20, 40, 60, 80, 100]"
    by blast
  then show "\<exists>ps u. executeScan env sid tg ''comprehensive'' u0 = (Inr ps, u)
            \<and> progress_reports (events u) = progress_reports (events u0) @ [10, 20, 40, 60, 80, 100]
            \<and> subseq [20, 40, 60, 80, 100]
                 (drop (length (progress_reports (events u0))) (progress_reports (events u)))"
    by (intro exI [of _ ps] exI [of _ u]) simp
next
  from scanWorker_effect [OF attempt] have "reports 10 100 w w'" by simp
  then show "\<exists>ps. progress_reports (events w') = progress_reports (events w) @ ps \<and> sorted ps"
    unfolding reports_def by blast
next
  from process_job_effect [OF job] vrow obtain row' where
    "scans v' (scanId (data j)) = Some row'" "progress row' = progress vrow \<or> progress row' = 100"
    by auto
  with bound show "\<exists>row'. scans v' (scanId (data j)) = Some row' \<and> progress vrow \<le> progress row'"
    by auto
qed

theorem progress_within_one_attempt_witness:
  "no_failure env_ok \<and> progress new_scan \<le> 100
   \<and> scans world0 (scanId (data (addScanJob zap_job))) = Some new_scan
   \<and> (\<exists>ps u. executeScan env_ok 1 ''example.com'' ''comprehensive'' world0 = (Inr ps, u)
            \<and> progress_reports (events u) = progress_reports (events world0) @ [10, 20, 40, 60, 80, 100]
            \<and> subseq [20, 40, 60, 80, 100]
                 (drop (length (progress_reports (events world0))) (progress_reports (events u))))
   \<and> (\<exists>ps. progress_reports (events (snd (scanWorker (env_failing_at [4]) zap_job world0)))
             = progress_reports (events world0) @ ps \<and> sorted ps)
   \<and> (\<exists>row'. scans (snd (process_job (env_failing_at [4]) defaultJobOptions (addScanJob zap_job) world0))
                 (scanId (data (addScanJob zap_job))) = Some row'
            \<and> progress new_scan \<le> progress row')"
proof -
  let ?E = "env_failing_at [4]"
  have h2: "scanWorker ?E zap_job world0 = (fst (scanWorker ?E zap_job world0), snd (scanWorker ?E zap_job world0))"
    by simp
  have h3: "process_job ?E defaultJobOptions (addScanJob zap_job) world0
      = (fst (process_job ?E defaultJobOptions (addScanJob zap_job) world0),
         snd (process_job ?E defaultJobOptions (addScanJob zap_job) world0))"
    by simp
  have h4: "scans world0 (scanId (data (addScanJob zap_job))) = Some new_scan"
    by (simp add: world0_def addScanJob_def zap_job_def)
  have h5: "progress new_scan \<le> 100" by (simp add: new_scan_def)
  from progress_within_one_attempt [OF no_failure_env_ok h2 h3 h4 h5, of 1 "''example.com''" world0]
    no_failure_env_ok h4 h5
  show ?thesis by blast
qed

section \<open>Stored findings and the error message\<close>










text \<open>
  Claim C4 says that the error message of the scan row is written only after the retries
  are exhausted. On the code this fails: the first failed attempt writes it. In the run of
  Claim C1 the row holds the message after the first attempt, two attempts are left, and
  the job then completes at the second attempt, after a delay of 2000 ms.
\<close>

theorem error_message_written_by_first_failed_attempt:
  "map_option error_message (scans (snd (scanWorker (env_failing_at [4]) zap_job world0)) 1)
     = Some (Some ''connection lost'')
   \<and> Suc (attemptsMade (addScanJob zap_job)) < attempts defaultJobOptions
   \<and> state (fst (process_job (env_failing_at [4]) defaultJobOptions (addScanJob zap_job) world0))
       = Completed
   \<and> retry_delays (fst (process_job (env_failing_at [4]) defaultJobOptions (addScanJob zap_job) world0))
       = [2000]"
proof -
  from zap_first_attempt obtain w1 row1 where
    "scanWorker (env_failing_at [4]) zap_job world0 = (Inl (JsError ''connection lost''), w1)"
    "scans w1 1 = Some row1" "error_message row1 = Some ''connection lost''"
    by blast
  moreover from retry_run obtain j' w' where
    "process_job (env_failing_at [4]) defaultJobOptions (addScanJob zap_job) world0 = (j', w')"
    "state j' = Completed" "retry_delays j' = [2000]"
    by blast
  ultimately show ?thesis by (simp add: addScanJob_def defaultJobOptions_def)
qed

lemma thrown_message_nonempty:
  assumes "scanWorker env d w = (Inl e, w')" and "\<forall>n m. io_failure env n = Some m \<longrightarrow> m \<noteq> []"
  shows "message e \<noteq> []"
proof -
  from scanWorker_effect [OF assms(1)] obtain m where "e = JsError m"
    "(\<exists>n. io_failure env n = Some m)
       \<or> m = ''Unsupported scan type: '' @ scanType d \<and> \<not> supported (scanType d)"
    by auto
  with assms(2) show ?thesis by auto
qed

text \<open>
  Claim C4 as amended. A job whose handler throws is run again until three attempts were
  made, after delays of 2000 ms and 4000 ms, and is then marked failed. Every failed attempt
  whose last update reaches the store leaves the scan with status error and the message of
  the error as error message; so does the last one, and then the error message is the
  failure reason of the job, not empty when the messages of the store's and the queue's
  errors are not.
\<close>

theorem failed_job_after_three_attempts:
  assumes attempt: "scanWorker env d w = (Inl e, w1)" and row: "scans w (scanId d) = Some row"
    and stored: "io_failure env (clock w1 - 1) = None"
    and job: "process_job env defaultJobOptions (addScanJob d) v = (j', v')" and failed: "state j' = Failed"
    and vrow: "scans v (scanId d) = Some vrow" and vstored: "io_failure env (clock v' - 1) = None"
    and msgs: "\<forall>n m. io_failure env n = Some m \<longrightarrow> m \<noteq> []"
  shows "(\<exists>row1. scans w1 (scanId d) = Some row1 \<and> status row1 = St_error
            \<and> error_message row1 = Some (message e))
       \<and> attemptsMade j' = 3 \<and> retry_delays j' = [2000, 4000]
       \<and> (\<exists>row' m. scans v' (scanId d) = Some row' \<and> status row' = St_error
             \<and> error_message row' = Some m \<and> failedReason j' = Some m \<and> m \<noteq> [])"
proof (intro conjI)
  from scanWorker_effect [OF attempt] row stored
  show "\<exists>row1. scans w1 (scanId d) = Some row1 \<and> status row1 = St_error
            \<and> error_message row1 = Some (message e)"
    by auto
next
  from process_job_failed [OF job failed]
  show "attemptsMade j' = 3" "retry_delays j' = [2000, 4000]"
    by (simp_all add: addScanJob_def defaultJobOptions_def backoff_def upt_conv_Cons)
next
  from process_job_failed [OF job failed] vrow obtain e' w0 row0 where l:
    "scanWorker env d w0 = (Inl e', v')" "failedReason j' = Some (message e')"
    "scans w0 (scanId d) = Some row0"
    by (auto simp add: addScanJob_def)
  from scanWorker_effect [OF l(1)] l(3) vstored obtain row' where
    "scans v' (scanId d) = Some row'" "status row' = St_error"
    "error_message row' = Some (message e')"
    by auto
  with l(2) thrown_message_nonempty [OF l(1) msgs]
  show "\<exists>row' m. scans v' (scanId d) = Some row' \<and> status row' = St_error
             \<and> error_message row' = Some m \<and> failedReason j' = Some m \<and> m \<noteq> []"
    by blast
qed

theorem failed_job_after_three_attempts_witness:
  "state (fst (process_job (env_failing_at [4, 10, 16]) defaultJobOptions
       (addScanJob comprehensive_job) world0)) = Failed
   \<and> scans world0 (scanId comprehensive_job) = Some new_scan
   \<and> io_failure (env_failing_at [4, 10, 16])
       (clock (snd (process_job (env_failing_at [4, 10, 16]) defaultJobOptions
          (addScanJob comprehensive_job) world0)) - 1) = None
   \<and> (\<exists>row1. scans (snd (scanWorker (env_failing_at [4, 10, 16]) comprehensive_job world0))
                 (scanId comprehensive_job) = Some row1
          \<and> status row1 = St_error
          \<and> error_message row1 = Some (message (JsError ''connection lost'')))
   \<and> attemptsMade (fst (process_job (env_failing_at [4, 10, 16]) defaultJobOptions
         (addScanJob comprehensive_job) world0)) = 3
   \<and> retry_delays (fst (process_job (env_failing_at [4, 10, 16]) defaultJobOptions
         (addScanJob comprehensive_job) world0)) = [2000, 4000]
   \<and> (\<exists>row' m. scans (snd (process_job (env_failing_at [4, 10, 16]) defaultJobOptions
                   (addScanJob comprehensive_job) world0)) (scanId comprehensive_job) = Some row'
          \<and> status row' = St_error \<and> error_message row' = Some m
          \<and> failedReason (fst (process_job (env_failing_at [4, 10, 16]) defaultJobOptions
                (addScanJob comprehensive_job) world0)) = Some m
          \<and> m \<noteq> [])"
proof -
  let ?E = "env_failing_at [4, 10, 16]"
  let ?R = "process_job ?E defaultJobOptions (addScanJob comprehensive_job) world0"
  let ?A = "scanWorker ?E comprehensive_job world0"
  from comprehensive_first_attempt obtain w1 row1 where f:
    "?A = (Inl (JsError ''connection lost''), w1)" "clock w1 = 6"
    by blast
  from failing_run obtain j' w' where r: "?R = (j', w')" "state j' = Failed" "clock w' = 18"
    by blast
  have h1: "?A = (Inl (JsError ''connection lost''), snd ?A)" using f(1) by simp
  have h2: "scans world0 (scanId comprehensive_job) = Some new_scan"
    by (simp add: world0_def comprehensive_job_def)
  have h3: "io_failure ?E (clock (snd ?A) - 1) = None"
    using f by (simp add: env_failing_at_def)
  have h4: "?R = (fst ?R, snd ?R)" by simp
  have h5: "state (fst ?R) = Failed" using r by simp
  have h6: "io_failure ?E (clock (snd ?R) - 1) = None"
    using r by (simp add: env_failing_at_def)
  have h7: "\<forall>n m. io_failure ?E n = Some m \<longrightarrow> m \<noteq> []"
    by (simp add: env_failing_at_def)
  from failed_job_after_three_attempts [OF h1 h2 h3 h4 h5 h2 h6 h7] h5 h2 h6
  show ?thesis by blast
qed

end
